theory Spec2Isabelle
  imports Main
begin

section \<open>JavaScript values\<close>

text \<open>
  The client library is TypeScript; at run time its data are JavaScript values. A string
  is modelled as a \<open>string\<close> whose characters are code units below 256. A number is
  either \<open>NaN\<close> or an integer: the numbers the client computes with are the result of
  \<open>parseInt\<close> and the \<open>limit\<close> query parameter, and JavaScript represents every
  integer of magnitude up to \<open>2 ^ 53\<close> exactly; statements about the value of a number
  are made within that range (a fractional number in a payload is outside the model; the
  client looks at a payload only through its truthiness and, for a player, one property).
  An array is an object too and may carry named properties besides its elements. An
  object is the list of its own properties in key order.
\<close>

datatype jsnum = NaN | Num int

datatype jsval =
    JUndefined
  | JNull
  | JBool bool
  | JNum jsnum
  | JStr string
  | JArr "jsval list" "(string \<times> jsval) list"
  | JObj "(string \<times> jsval) list"

type_synonym jsobject = "(string \<times> jsval) list"

text \<open>The conversion to a boolean that \<open>if (x)\<close> and \<open>x ? a : b\<close> apply.\<close>

fun truthy :: "jsval \<Rightarrow> bool" where
  "truthy JUndefined = False"
| "truthy JNull = False"
| "truthy (JBool b) = b"
| "truthy (JNum NaN) = False"
| "truthy (JNum (Num n)) = (n \<noteq> 0)"
| "truthy (JStr s) = (s \<noteq> [])"
| "truthy (JArr xs ps) = True"
| "truthy (JObj ps) = True"

subsection \<open>parseInt\<close>

text \<open>
  \<open>parseInt(s)\<close> without a radix: leading white space is dropped, a sign is read, the
  prefix \<open>0x\<close> or \<open>0X\<close> selects radix 16, and the longest run of digits of the radix is
  the value; with no digit the result is \<open>NaN\<close>.
\<close>

definition is_space :: "char \<Rightarrow> bool" where
  "is_space c = (of_char c \<in> {9, 10, 11, 12, 13, 32, 160 :: nat})"

definition digit_val :: "char \<Rightarrow> nat" where
  "digit_val c =
     (let n = of_char c :: nat in
      if 48 \<le> n \<and> n \<le> 57 then n - 48
      else if 97 \<le> n \<and> n \<le> 122 then n - 87
      else if 65 \<le> n \<and> n \<le> 90 then n - 55
      else 36)"

definition is_digit :: "nat \<Rightarrow> char \<Rightarrow> bool" where
  "is_digit radix c = (digit_val c < radix)"

definition digits_value :: "nat \<Rightarrow> string \<Rightarrow> nat" where
  "digits_value radix z = foldl (\<lambda>a c. a * radix + digit_val c) 0 z"

definition read_sign :: "string \<Rightarrow> int \<times> string" where
  "read_sign s =
     (case s of
        [] \<Rightarrow> (1, [])
      | c # r \<Rightarrow> if c = CHR ''-'' then (- 1, r) else if c = CHR ''+'' then (1, r) else (1, s))"

definition read_radix :: "string \<Rightarrow> nat \<times> string" where
  "read_radix s =
     (case s of
        a # b # r \<Rightarrow>
          if a = CHR ''0'' \<and> (b = CHR ''x'' \<or> b = CHR ''X'') then (16, r) else (10, s)
      | _ \<Rightarrow> (10, s))"

definition parseInt :: "string \<Rightarrow> jsnum" where
  "parseInt s =
     (let (sign, s2) = read_sign (dropWhile is_space s);
          (radix, s3) = read_radix s2;
          z = takeWhile (is_digit radix) s3
      in if z = [] then NaN else Num (sign * int (digits_value radix z)))"

subsection \<open>Objects\<close>

text \<open>
  Reading an own property gives \<open>undefined\<close> when the key is absent. Assigning to a
  property overwrites it in place when the key exists and adds it after the existing keys
  otherwise (the keys assigned here, \<open>before\<close>, \<open>after\<close>, \<open>limit\<close> and
  \<open>x3vs3Victories\<close>, are not array indices, so the key order is the insertion order).
\<close>

definition getProp :: "jsobject \<Rightarrow> string \<Rightarrow> jsval" where
  "getProp obj k = (case map_of obj k of None \<Rightarrow> JUndefined | Some v \<Rightarrow> v)"

fun assign :: "jsobject \<Rightarrow> string \<Rightarrow> jsval \<Rightarrow> jsobject" where
  "assign [] k v = [(k, v)]"
| "assign ((k', v') # ps) k v =
     (if k' = k then (k, v) # ps else (k', v') # assign ps k v)"

subsection \<open>querystring.stringify\<close>

text \<open>
  The escape function keeps the letters, the digits and \<open>- _ . ! ~ * ' ( )\<close> and writes
  every other code unit as the percent-encoded bytes of its UTF-8 encoding, in upper-case
  hexadecimal: one byte below 128, two bytes from 128 to 255.
\<close>

definition noEscape :: "char \<Rightarrow> bool" where
  "noEscape c =
     (let n = of_char c :: nat in
      (48 \<le> n \<and> n \<le> 57) \<or> (65 \<le> n \<and> n \<le> 90) \<or> (97 \<le> n \<and> n \<le> 122)
      \<or> n \<in> {33, 39, 40, 41, 42, 45, 46, 95, 126})"

definition hexDigit :: "nat \<Rightarrow> char" where
  "hexDigit n = ''0123456789ABCDEF'' ! (n mod 16)"

definition hexTable :: "nat \<Rightarrow> string" where
  "hexTable n = [CHR ''%'', hexDigit (n div 16), hexDigit n]"

definition escapeChar :: "char \<Rightarrow> string" where
  "escapeChar c =
     (let n = of_char c :: nat in
      if n < 128 then (if noEscape c then [c] else hexTable n)
      else hexTable (192 + n div 64) @ hexTable (128 + n mod 64))"

definition qsEscape :: "string \<Rightarrow> string" where
  "qsEscape s = concat (map escapeChar s)"

text \<open>
  The decimal rendering of an integer, as \<open>'' + v\<close> gives it for the integers of the
  exact range.
\<close>

fun show_nat :: "nat \<Rightarrow> string" where
  "show_nat n =
     (if n < 10 then [''0123456789'' ! n]
      else show_nat (n div 10) @ [''0123456789'' ! (n mod 10)])"

declare show_nat.simps [simp del]

definition show_int :: "int \<Rightarrow> string" where
  "show_int i = (if i < 0 then CHR ''-'' # show_nat (nat (- i)) else show_nat (nat i))"

text \<open>
  A primitive value as it is written into the query string: a string escaped, a finite
  number in decimal, a boolean as \<open>true\<close> or \<open>false\<close>, and anything else (also
  \<open>undefined\<close>) as the empty string.
\<close>

fun encodeStringified :: "jsval \<Rightarrow> string" where
  "encodeStringified (JStr s) = qsEscape s"
| "encodeStringified (JNum (Num n)) = show_int n"
| "encodeStringified (JBool b) = (if b then ''true'' else ''false'')"
| "encodeStringified v = []"

text \<open>
  The fields one key contributes: one \<open>key=value\<close> field, or one field for each element
  when the value is an array (none for the empty array).
\<close>

fun fields_of :: "string \<times> jsval \<Rightarrow> string list" where
  "fields_of (k, JArr vs ps) = map (\<lambda>v. qsEscape k @ ''='' @ encodeStringified v) vs"
| "fields_of (k, v) = [qsEscape k @ ''='' @ encodeStringified v]"

fun join :: "string \<Rightarrow> string list \<Rightarrow> string" where
  "join sep [] = []"
| "join sep [x] = x"
| "join sep (x # y # ys) = x @ sep @ join sep (y # ys)"

text \<open>
  \<open>stringify(obj)\<close> walks the keys of the object in key order and joins the fields
  with \<open>&\<close>.
\<close>

definition stringify :: "jsobject \<Rightarrow> string" where
  "stringify obj = join ''&'' (concat (map fields_of obj))"

section \<open>The header rule for the time to live\<close>

definition startsWith :: "string \<Rightarrow> string \<Rightarrow> bool" where
  "startsWith s p = (take (length p) s = p)"

definition slice :: "nat \<Rightarrow> string \<Rightarrow> string" where
  "slice n s = drop n s"

text \<open>
  Lines 60 to 62 of the client: \<open>cache\<close> is the value of the \<open>cache-control\<close> response
  header, \<open>None\<close> when the header is absent; the empty string is falsy as well.
\<close>

definition ttl_of :: "string option \<Rightarrow> jsnum" where
  "ttl_of cache =
     (case cache of
        None \<Rightarrow> Num 0
      | Some h \<Rightarrow>
          if h \<noteq> [] \<and> startsWith h ''max-age='' then parseInt (slice 8 h) else Num 0)"

section \<open>The cache\<close>

text \<open>
  Modelled from the spec: the cache is the external package \<open>node-cache\<close>, which is
  not part of the sources; section 4.1 of the specification describes it. An entry holds
  a value and an absolute deadline. \<open>get\<close> returns the value only while the current
  time is before the deadline; \<open>set\<close> overwrites the entry of the key with the deadline
  \<open>now + ttl\<close>. Times and the time to live are in seconds.
\<close>

record entry =
  val :: jsval
  expiresAt :: int

type_synonym ttl_cache = "string \<rightharpoonup> entry"

definition cache_get :: "ttl_cache \<Rightarrow> int \<Rightarrow> string \<Rightarrow> jsval option" where
  "cache_get m now key =
     (case m key of
        None \<Rightarrow> None
      | Some e \<Rightarrow> if now < expiresAt e then Some (val e) else None)"

definition cache_set :: "ttl_cache \<Rightarrow> int \<Rightarrow> string \<Rightarrow> jsval \<Rightarrow> int \<Rightarrow> ttl_cache" where
  "cache_set m now key v ttl = m(key \<mapsto> \<lparr>val = v, expiresAt = now + ttl\<rparr>)"

section \<open>The client\<close>

record client_options =
  cache_opt :: bool
  baseURL_opt :: "string option"

record client =
  token :: string
  cache :: "ttl_cache option"
  baseURL :: string

definition default_options :: client_options where
  "default_options = \<lparr>cache_opt = True, baseURL_opt = None\<rparr>"

definition new_client :: "string \<Rightarrow> client_options \<Rightarrow> client" where
  "new_client tok options =
     \<lparr>token = tok,
      cache = (if cache_opt options then Some Map.empty else None),
      baseURL = (case baseURL_opt options of
                   None \<Rightarrow> ''https://api.brawlstars.com/v1''
                 | Some u \<Rightarrow> u)\<rparr>"

definition authorization :: "client \<Rightarrow> string" where
  "authorization c = ''Bearer '' @ token c"

subsection \<open>The network\<close>

text \<open>
  The HTTP library is a parameter of the model: a function from the request to what
  \<open>fetch\<close> settles with, either a rejection (no response arrived) or a response. A
  response carries its status, its status text, its headers under lower-case names and
  the value its body decodes to, \<open>None\<close> when the body is not JSON.
\<close>

record request =
  url :: string
  req_headers :: "(string \<times> string) list"

record response =
  status :: nat
  statusText :: string
  resp_headers :: "(string \<times> string) list"
  json :: "jsval option"

datatype fetch_result = Rejected | Response response

type_synonym network = "request \<Rightarrow> fetch_result"

definition ok :: "response \<Rightarrow> bool" where
  "ok r = (200 \<le> status r \<and> status r < 300)"

definition headers_get :: "response \<Rightarrow> string \<Rightarrow> string option" where
  "headers_get r name = map_of (resp_headers r) name"

subsection \<open>Errors and effects\<close>

datatype error =
    APIError (message: string) (error_status: nat)
  | TransportFailure
  | DecodeFailure
  | TypeError

text \<open>
  What a call does besides returning: the requests it sends and the \<open>set\<close> calls it
  makes on the cache, in order.
\<close>

datatype event = NetRequest request | CacheSet string jsval int

record fetch_out =
  outcome :: "error + jsval"
  cache_after :: "ttl_cache option"
  effects :: "event list"

subsection \<open>The cached fetch\<close>

definition request_url :: "client \<Rightarrow> string \<Rightarrow> jsobject option \<Rightarrow> string" where
  "request_url c path query =
     baseURL c @ path @ (case query of None \<Rightarrow> [] | Some q \<Rightarrow> ''?'' @ stringify q)"

definition cache_lookup :: "client \<Rightarrow> int \<Rightarrow> string \<Rightarrow> jsval" where
  "cache_lookup c now key =
     (case cache c of
        None \<Rightarrow> JUndefined
      | Some m \<Rightarrow> (case cache_get m now key of None \<Rightarrow> JUndefined | Some v \<Rightarrow> v))"

definition make_request :: "client \<Rightarrow> string \<Rightarrow> request" where
  "make_request c u =
     \<lparr>url = u,
      req_headers =
        [(''Authorization'', authorization c),
         (''User-Agent'', ''BrawlStars.js https://github.com/pollen5/brawlstars.js''),
         (''Accept'', ''application/json'')]\<rparr>"

text \<open>
  Line 64, \<open>if (ttl) this.cache?.set(url, data, ttl)\<close>: the condition holds for a
  number that is neither \<open>NaN\<close> nor zero, and nothing is called when the client has no
  cache. The result is the cache afterwards and the \<open>set\<close> calls made.
\<close>

definition store ::
  "client \<Rightarrow> int \<Rightarrow> string \<Rightarrow> jsval \<Rightarrow> jsnum \<Rightarrow> ttl_cache option \<times> event list" where
  "store c later key data ttl =
     (if truthy (JNum ttl)
      then (case (cache c, ttl) of
              (Some m, Num n) \<Rightarrow> (Some (cache_set m later key data n), [CacheSet key data n])
            | _ \<Rightarrow> (cache c, []))
      else (cache c, []))"

text \<open>
  \<open>Client._fetch\<close>. The method is private; its callers pass an object as query or
  nothing, and the query is \<open>None\<close> when the argument is absent. \<open>now\<close> is the
  time of the cache lookup and \<open>later\<close> the time at which the response has arrived and
  the cache is written. Every failure leaves the cache as it was.
\<close>

definition failed :: "client \<Rightarrow> request \<Rightarrow> error \<Rightarrow> fetch_out" where
  "failed c req e = \<lparr>outcome = Inl e, cache_after = cache c, effects = [NetRequest req]\<rparr>"

definition Client_fetch ::
  "network \<Rightarrow> int \<Rightarrow> int \<Rightarrow> client \<Rightarrow> string \<Rightarrow> jsobject option \<Rightarrow> fetch_out" where
  "Client_fetch net now later c path query =
     (let u = request_url c path query;
          exists = cache_lookup c now u
      in if truthy exists
         then \<lparr>outcome = Inr exists, cache_after = cache c, effects = []\<rparr>
         else
           (let req = make_request c u in
            case net req of
              Rejected \<Rightarrow> failed c req TransportFailure
            | Response r \<Rightarrow>
                if \<not> ok r then failed c req (APIError (statusText r) (status r))
                else
                  (case json r of
                     None \<Rightarrow> failed c req DecodeFailure
                   | Some data \<Rightarrow>
                       (let ttl = ttl_of (headers_get r ''cache-control'');
                            (cache', sets) = store c later u data ttl
                        in \<lparr>outcome = Inr data, cache_after = cache',
                            effects = NetRequest req # sets\<rparr>))))"

section \<open>The accessors\<close>

text \<open>
  Modelled from the spec: \<open>cleanTag\<close> comes from the module \<open>./utils\<close>, which is not
  part of the sources; the specification says that it strips the leading \<open>#\<close> of a tag.
\<close>

definition cleanTag :: "string \<Rightarrow> string" where
  "cleanTag tag =
     (case tag of [] \<Rightarrow> [] | c # rest \<Rightarrow> if c = CHR ''#'' then rest else tag)"



definition getPlayerBattlelog :: "network \<Rightarrow> int \<Rightarrow> int \<Rightarrow> client \<Rightarrow> string \<Rightarrow> fetch_out" where
  "getPlayerBattlelog net now later c tag =
     Client_fetch net now later c (''/players/%23'' @ cleanTag tag @ ''/battlelog'') None"

definition getClub :: "network \<Rightarrow> int \<Rightarrow> int \<Rightarrow> client \<Rightarrow> string \<Rightarrow> fetch_out" where
  "getClub net now later c tag =
     Client_fetch net now later c (''/clubs/%23'' @ cleanTag tag) None"

text \<open>
  The ranking, member and brawler accessors take an optional parameter object, \<open>{}\<close>
  when it is absent, read its properties \<open>before\<close>, \<open>after\<close> and \<open>limit\<close>, and build
  the query from the truthy ones, in this order.
\<close>

definition queryParams :: "jsobject option \<Rightarrow> jsobject" where
  "queryParams arg =
     (let params = (case arg of None \<Rightarrow> [] | Some p \<Rightarrow> p);
          before = getProp params ''before'';
          after = getProp params ''after'';
          limit = getProp params ''limit'';
          query = [];
          query = (if truthy before then assign query ''before'' before else query);
          query = (if truthy after then assign query ''after'' after else query);
          query = (if truthy limit then assign query ''limit'' limit else query)
      in query)"

definition getPlayerRankings ::
  "network \<Rightarrow> int \<Rightarrow> int \<Rightarrow> client \<Rightarrow> string \<Rightarrow> jsobject option \<Rightarrow> fetch_out" where
  "getPlayerRankings net now later c country arg =
     Client_fetch net now later c (''/rankings/'' @ country @ ''/players'')
       (Some (queryParams arg))"

definition getClubRankings ::
  "network \<Rightarrow> int \<Rightarrow> int \<Rightarrow> client \<Rightarrow> string \<Rightarrow> jsobject option \<Rightarrow> fetch_out" where
  "getClubRankings net now later c country arg =
     Client_fetch net now later c (''/rankings/'' @ country @ ''/clubs'')
       (Some (queryParams arg))"

definition getBrawlerRankings ::
  "network \<Rightarrow> int \<Rightarrow> int \<Rightarrow> client \<Rightarrow> string \<Rightarrow> string \<Rightarrow> jsobject option \<Rightarrow> fetch_out" where
  "getBrawlerRankings net now later c country brawler arg =
     Client_fetch net now later c (''/rankings/'' @ country @ ''/brawlers/'' @ brawler)
       (Some (queryParams arg))"

definition getClubMembers ::
  "network \<Rightarrow> int \<Rightarrow> int \<Rightarrow> client \<Rightarrow> string \<Rightarrow> jsobject option \<Rightarrow> fetch_out" where
  "getClubMembers net now later c tag arg =
     Client_fetch net now later c (''/clubs/%23'' @ cleanTag tag @ ''/members'')
       (Some (queryParams arg))"

definition getBrawlers ::
  "network \<Rightarrow> int \<Rightarrow> int \<Rightarrow> client \<Rightarrow> jsobject option \<Rightarrow> fetch_out" where
  "getBrawlers net now later c arg =
     Client_fetch net now later c ''/brawlers'' (Some (queryParams arg))"

definition getBrawler :: "network \<Rightarrow> int \<Rightarrow> int \<Rightarrow> client \<Rightarrow> string \<Rightarrow> fetch_out" where
  "getBrawler net now later c ident = Client_fetch net now later c (''/brawlers/'' @ ident) None"

definition getMapRotation :: "network \<Rightarrow> int \<Rightarrow> int \<Rightarrow> client \<Rightarrow> fetch_out" where
  "getMapRotation net now later c = Client_fetch net now later c ''/events/rotation'' None"

section \<open>The client between calls, and test fixtures\<close>

text \<open>The client after a call: the call's cache replaces the client's.\<close>

definition client_after :: "client \<Rightarrow> fetch_out \<Rightarrow> client" where
  "client_after c out = c\<lparr>cache := cache_after out\<rparr>"

text \<open>
  A client with the default options, a network that answers every request with the same
  response, a successful response with a given \<open>cache-control\<close> header and body, and
  the 404 response.
\<close>

definition example_client :: client where
  "example_client = new_client ''token'' default_options"

definition respond :: "response \<Rightarrow> network" where
  "respond r = (\<lambda>req. Response r)"

definition ok_response :: "string option \<Rightarrow> jsval \<Rightarrow> response" where
  "ok_response cc body =
     \<lparr>status = 200, statusText = ''OK'',
      resp_headers = (case cc of None \<Rightarrow> [] | Some h \<Rightarrow> [(''cache-control'', h)]),
      json = Some body\<rparr>"

definition not_found :: response where
  "not_found = \<lparr>status = 404, statusText = ''Not Found'', resp_headers = [], json = None\<rparr>"

section \<open>Properties of the number parser\<close>

lemma is_digit_10_iff: "is_digit 10 c \<longleftrightarrow> 48 \<le> (of_char c :: nat) \<and> (of_char c :: nat) \<le> 57"
  unfolding is_digit_def digit_val_def Let_def by auto

lemma digit_not_space: "is_digit 10 c \<Longrightarrow> \<not> is_space c"
  unfolding is_digit_10_iff is_space_def by auto

lemma digit_not_sign: "is_digit 10 c \<Longrightarrow> c \<noteq> CHR ''-'' \<and> c \<noteq> CHR ''+''"
  unfolding is_digit_10_iff by auto

lemma digit_not_x: "is_digit 10 c \<Longrightarrow> c \<noteq> CHR ''x'' \<and> c \<noteq> CHR ''X''"
  unfolding is_digit_10_iff by auto

lemma takeWhile_digits:
  assumes "\<forall>c\<in>set ds. is_digit 10 c" and "rest = [] \<or> \<not> is_digit 10 (hd rest)"
  shows "takeWhile (is_digit 10) (ds @ rest) = ds"
proof -
  have "takeWhile (is_digit 10) rest = []"
    using assms(2) by (cases rest) auto
  with assms(1) show ?thesis by (simp add: takeWhile_append2)
qed

lemma read_radix_digits:
  assumes "ds \<noteq> []" and "\<forall>c\<in>set ds. is_digit 10 c"
    and "\<not> (ds = ''0'' \<and> rest \<noteq> [] \<and> (hd rest = CHR ''x'' \<or> hd rest = CHR ''X''))"
  shows "read_radix (ds @ rest) = (10, ds @ rest)"
proof (cases ds)
  case Nil
  with assms(1) show ?thesis by simp
next
  case (Cons a as)
  show ?thesis
  proof (cases as)
    case Nil
    with Cons assms(3) show ?thesis
      by (cases rest) (auto simp: read_radix_def)
  next
    case (Cons b bs)
    with \<open>ds = a # as\<close> assms(2) have "is_digit 10 b" by simp
    then have "b \<noteq> CHR ''x'' \<and> b \<noteq> CHR ''X''" by (rule digit_not_x)
    with Cons \<open>ds = a # as\<close> show ?thesis by (simp add: read_radix_def)
  qed
qed

lemma parseInt_digits:
  assumes "ds \<noteq> []" and "\<forall>c\<in>set ds. is_digit 10 c"
    and "rest = [] \<or> \<not> is_digit 10 (hd rest)"
    and "\<not> (ds = ''0'' \<and> rest \<noteq> [] \<and> (hd rest = CHR ''x'' \<or> hd rest = CHR ''X''))"
  shows "parseInt (ds @ rest) = Num (int (digits_value 10 ds))"
proof -
  obtain d ds' where ds: "ds = d # ds'" using assms(1) by (cases ds) auto
  with assms(2) have d: "is_digit 10 d" by simp
  have 1: "dropWhile is_space (ds @ rest) = ds @ rest"
    using ds digit_not_space [OF d] by simp
  have 2: "read_sign (ds @ rest) = (1, ds @ rest)"
    using ds digit_not_sign [OF d] by (simp add: read_sign_def)
  have 3: "read_radix (ds @ rest) = (10, ds @ rest)"
    using assms(1,2,4) by (rule read_radix_digits)
  have 4: "takeWhile (is_digit 10) (ds @ rest) = ds"
    using assms(2,3) by (rule takeWhile_digits)
  show ?thesis
    using assms(1) by (simp add: parseInt_def 1 2 3 4)
qed


lemma digits_value_snoc:
  "digits_value radix (z @ [c]) = digits_value radix z * radix + digit_val c"
  by (simp add: digits_value_def)

lemma decimal_digit:
  assumes "k < 10"
  shows "digit_val (''0123456789'' ! k) = k" and "is_digit 10 (''0123456789'' ! k)"
proof -
  from assms have "k \<in> {0, 1, 2, 3, 4, 5, 6, 7, 8, 9}" by auto
  then show "digit_val (''0123456789'' ! k) = k"
    by (auto simp: digit_val_def)
  with assms show "is_digit 10 (''0123456789'' ! k)"
    by (simp add: is_digit_def)
qed

lemma show_nat_digits:
  "show_nat n \<noteq> [] \<and> (\<forall>c\<in>set (show_nat n). is_digit 10 c) \<and> digits_value 10 (show_nat n) = n"
proof (induction n rule: show_nat.induct)
  case (1 n)
  show ?case
  proof (cases "n < 10")
    case True
    then show ?thesis
      by (simp add: show_nat.simps [of n] decimal_digit digits_value_def)
  next
    case False
    have "n mod 10 < 10" by simp
    with False 1 show ?thesis
      by (simp add: show_nat.simps [of n] decimal_digit digits_value_snoc)
  qed
qed

lemma ttl_of_max_age: "ttl_of (Some (''max-age='' @ s)) = parseInt s"
  by (simp add: ttl_of_def startsWith_def slice_def)

lemma store_falsy: "store c later key data (Num 0) = (cache c, [])" "store c later key data NaN = (cache c, [])"
  by (simp_all add: store_def)

lemma takeWhile_run:
  assumes "\<forall>c\<in>set ds. P c" and "rest = [] \<or> \<not> P (hd rest)"
  shows "takeWhile P (ds @ rest) = ds"
proof -
  have "takeWhile P rest = []"
    using assms(2) by (cases rest) auto
  with assms(1) show ?thesis by (simp add: takeWhile_append2)
qed

lemma sign_not_space: "\<not> is_space CHR ''+''" "\<not> is_space CHR ''-''"
  by (simp_all add: is_space_def)

lemma parseInt_split:
  assumes ws: "\<forall>c\<in>set ws. is_space c"
    and sg: "(sg = [] \<and> sgv = 1
                \<and> (body = [] \<or> (\<not> is_space (hd body) \<and> hd body \<noteq> CHR ''+'' \<and> hd body \<noteq> CHR ''-'')))
             \<or> (sg = ''+'' \<and> sgv = 1) \<or> (sg = ''-'' \<and> sgv = - 1)"
    and radix: "read_radix body = (radix, s3)"
    and run: "takeWhile (is_digit radix) s3 = z"
  shows "parseInt (ws @ sg @ body) = (if z = [] then NaN else Num (sgv * int (digits_value radix z)))"
proof -
  have "dropWhile is_space (ws @ sg @ body) = dropWhile is_space (sg @ body)"
    using ws by (simp add: dropWhile_append2)
  also have "\<dots> = sg @ body"
    using sg by (cases body) (auto simp: sign_not_space)
  finally have 1: "dropWhile is_space (ws @ sg @ body) = sg @ body" .
  have 2: "read_sign (sg @ body) = (sgv, body)"
    using sg by (cases body) (auto simp: read_sign_def)
  show ?thesis
    by (simp add: parseInt_def 1 2 radix run)
qed

lemma read_radix_hex:
  assumes "x = CHR ''x'' \<or> x = CHR ''X''"
  shows "read_radix (CHR ''0'' # x # r) = (16, r)"
  using assms by (auto simp: read_radix_def)

lemma read_radix_decimal:
  assumes "\<not> (\<exists>x r. (x = CHR ''x'' \<or> x = CHR ''X'') \<and> body = CHR ''0'' # x # r)"
  shows "read_radix body = (10, body)"
  using assms by (auto simp: read_radix_def split: list.splits)

lemma parseInt_decimal:
  assumes "\<forall>c\<in>set ws. is_space c"
    and "(sg = [] \<and> sgv = 1
            \<and> (ds @ rest = [] \<or> (\<not> is_space (hd (ds @ rest)) \<and> hd (ds @ rest) \<noteq> CHR ''+''
                                  \<and> hd (ds @ rest) \<noteq> CHR ''-'')))
         \<or> (sg = ''+'' \<and> sgv = 1) \<or> (sg = ''-'' \<and> sgv = - 1)"
    and "\<not> (\<exists>x r. (x = CHR ''x'' \<or> x = CHR ''X'') \<and> ds @ rest = CHR ''0'' # x # r)"
    and "\<forall>c\<in>set ds. is_digit 10 c" and "rest = [] \<or> \<not> is_digit 10 (hd rest)"
  shows "parseInt (ws @ sg @ ds @ rest) =
           (if ds = [] then NaN else Num (sgv * int (digits_value 10 ds)))"
  using assms(1,2) read_radix_decimal [OF assms(3)] takeWhile_run [OF assms(4,5)]
  by (rule parseInt_split)

lemma parseInt_hexadecimal:
  assumes "\<forall>c\<in>set ws. is_space c"
    and "(sg = [] \<and> sgv = 1) \<or> (sg = ''+'' \<and> sgv = 1) \<or> (sg = ''-'' \<and> sgv = - 1)"
    and "x = CHR ''x'' \<or> x = CHR ''X''"
    and "\<forall>c\<in>set hs. is_digit 16 c" and "rest = [] \<or> \<not> is_digit 16 (hd rest)"
  shows "parseInt (ws @ sg @ CHR ''0'' # x # hs @ rest) =
           (if hs = [] then NaN else Num (sgv * int (digits_value 16 hs)))"
proof -
  have "(sg = [] \<and> sgv = 1
          \<and> (CHR ''0'' # x # hs @ rest = []
              \<or> (\<not> is_space (hd (CHR ''0'' # x # hs @ rest)) \<and> hd (CHR ''0'' # x # hs @ rest) \<noteq> CHR ''+''
                  \<and> hd (CHR ''0'' # x # hs @ rest) \<noteq> CHR ''-'')))
        \<or> (sg = ''+'' \<and> sgv = 1) \<or> (sg = ''-'' \<and> sgv = - 1)"
    using assms(2) by (auto simp: is_space_def)
  with assms(1) show ?thesis
    using read_radix_hex [OF assms(3)] takeWhile_run [OF assms(4,5)]
    by (rule parseInt_split)
qed

lemma ttl_1f: "digits_value 16 ''1f'' = 31" "digits_value 10 ''0060'' = 60"
  by (simp_all add: digits_value_def digit_val_def)

section \<open>The time to live of a response\<close>

text \<open>
  C3 (as amended): the time to live is \<open>0\<close> when the \<open>cache-control\<close> header is absent
  or does not start with \<open>max-age=\<close>. When it starts with the prefix, the time to live
  is what \<open>parseInt\<close> reads from the text after the prefix: after optional white space
  and an optional sign, the longest run of decimal digits (of hexadecimal digits after
  \<open>0x\<close> or \<open>0X\<close>) as an integer with that sign, and \<open>NaN\<close> when that run is empty;
  the value is stated within the range up to \<open>2 ^ 53\<close> in which JavaScript numbers hold
  integers exactly. In particular the prefix followed by an unsigned decimal integer
  gives that integer: \<open>max-age=120\<close> gives \<open>120\<close>; \<open>no-cache\<close> gives \<open>0\<close>. With a
  time to live of \<open>0\<close> or \<open>NaN\<close> nothing is stored in the cache.
\<close>

theorem ttl_from_cache_control:
  "ttl_of None = Num 0
   \<and> (\<forall>h. \<not> startsWith h ''max-age='' \<longrightarrow> ttl_of (Some h) = Num 0)
   \<and> (\<forall>s. ttl_of (Some (''max-age='' @ s)) = parseInt s)
   \<and> (\<forall>ws sg sgv ds rest.
         (\<forall>c\<in>set ws. is_space c)
         \<and> ((sg = [] \<and> sgv = 1
                \<and> (ds @ rest = [] \<or> (\<not> is_space (hd (ds @ rest)) \<and> hd (ds @ rest) \<noteq> CHR ''+''
                                      \<and> hd (ds @ rest) \<noteq> CHR ''-'')))
              \<or> (sg = ''+'' \<and> sgv = 1) \<or> (sg = ''-'' \<and> sgv = - 1))
         \<and> \<not> (\<exists>x r. (x = CHR ''x'' \<or> x = CHR ''X'') \<and> ds @ rest = CHR ''0'' # x # r)
         \<and> (\<forall>c\<in>set ds. is_digit 10 c) \<and> (rest = [] \<or> \<not> is_digit 10 (hd rest))
         \<and> digits_value 10 ds \<le> 2 ^ 53
       \<longrightarrow> ttl_of (Some (''max-age='' @ ws @ sg @ ds @ rest)) =
             (if ds = [] then NaN else Num (sgv * int (digits_value 10 ds))))
   \<and> (\<forall>ws sg sgv x hs rest.
         (\<forall>c\<in>set ws. is_space c)
         \<and> ((sg = [] \<and> sgv = 1) \<or> (sg = ''+'' \<and> sgv = 1) \<or> (sg = ''-'' \<and> sgv = - 1))
         \<and> (x = CHR ''x'' \<or> x = CHR ''X'')
         \<and> (\<forall>c\<in>set hs. is_digit 16 c) \<and> (rest = [] \<or> \<not> is_digit 16 (hd rest))
         \<and> digits_value 16 hs \<le> 2 ^ 53
       \<longrightarrow> ttl_of (Some (''max-age='' @ ws @ sg @ CHR ''0'' # x # hs @ rest)) =
             (if hs = [] then NaN else Num (sgv * int (digits_value 16 hs))))
   \<and> (\<forall>ds. ds \<noteq> [] \<and> (\<forall>c\<in>set ds. is_digit 10 c) \<and> digits_value 10 ds \<le> 2 ^ 53
         \<longrightarrow> ttl_of (Some (''max-age='' @ ds)) = Num (int (digits_value 10 ds)))
   \<and> (\<forall>n. n \<le> 2 ^ 53 \<longrightarrow> ttl_of (Some (''max-age='' @ show_nat n)) = Num (int n))
   \<and> ttl_of (Some ''max-age=120'') = Num 120
   \<and> ttl_of (Some ''no-cache'') = Num 0
   \<and> (\<forall>c later key data. store c later key data (Num 0) = (cache c, [])
                           \<and> store c later key data NaN = (cache c, []))"
proof (intro conjI)
  show "ttl_of None = Num 0"
    by (simp add: ttl_of_def)
  show other: "\<forall>h. \<not> startsWith h ''max-age='' \<longrightarrow> ttl_of (Some h) = Num 0"
    by (simp add: ttl_of_def)
  show "\<forall>s. ttl_of (Some (''max-age='' @ s)) = parseInt s"
    by (intro allI) (rule ttl_of_max_age)
  show "\<forall>ws sg sgv ds rest.
         (\<forall>c\<in>set ws. is_space c)
         \<and> ((sg = [] \<and> sgv = 1
                \<and> (ds @ rest = [] \<or> (\<not> is_space (hd (ds @ rest)) \<and> hd (ds @ rest) \<noteq> CHR ''+''
                                      \<and> hd (ds @ rest) \<noteq> CHR ''-'')))
              \<or> (sg = ''+'' \<and> sgv = 1) \<or> (sg = ''-'' \<and> sgv = - 1))
         \<and> \<not> (\<exists>x r. (x = CHR ''x'' \<or> x = CHR ''X'') \<and> ds @ rest = CHR ''0'' # x # r)
         \<and> (\<forall>c\<in>set ds. is_digit 10 c) \<and> (rest = [] \<or> \<not> is_digit 10 (hd rest))
         \<and> digits_value 10 ds \<le> 2 ^ 53
       \<longrightarrow> ttl_of (Some (''max-age='' @ ws @ sg @ ds @ rest)) =
             (if ds = [] then NaN else Num (sgv * int (digits_value 10 ds)))"
    unfolding ttl_of_max_age
    by (intro allI impI, elim conjE, rule parseInt_decimal)
  show "\<forall>ws sg sgv x hs rest.
         (\<forall>c\<in>set ws. is_space c)
         \<and> ((sg = [] \<and> sgv = 1) \<or> (sg = ''+'' \<and> sgv = 1) \<or> (sg = ''-'' \<and> sgv = - 1))
         \<and> (x = CHR ''x'' \<or> x = CHR ''X'')
         \<and> (\<forall>c\<in>set hs. is_digit 16 c) \<and> (rest = [] \<or> \<not> is_digit 16 (hd rest))
         \<and> digits_value 16 hs \<le> 2 ^ 53
       \<longrightarrow> ttl_of (Some (''max-age='' @ ws @ sg @ CHR ''0'' # x # hs @ rest)) =
             (if hs = [] then NaN else Num (sgv * int (digits_value 16 hs)))"
    unfolding ttl_of_max_age
    by (intro allI impI, elim conjE, rule parseInt_hexadecimal)
  have digits: "ttl_of (Some (''max-age='' @ ds)) = Num (int (digits_value 10 ds))"
    if "ds \<noteq> []" and "\<forall>c\<in>set ds. is_digit 10 c" for ds
  proof -
    have "parseInt (ds @ []) = Num (int (digits_value 10 ds))"
      using that by (intro parseInt_digits) simp_all
    then show ?thesis
      unfolding ttl_of_max_age by simp
  qed
  then show "\<forall>ds. ds \<noteq> [] \<and> (\<forall>c\<in>set ds. is_digit 10 c) \<and> digits_value 10 ds \<le> 2 ^ 53
         \<longrightarrow> ttl_of (Some (''max-age='' @ ds)) = Num (int (digits_value 10 ds))"
    by (intro allI impI, elim conjE)
  have "ttl_of (Some (''max-age='' @ show_nat n)) = Num (int n)" for n
    using digits [of "show_nat n"] show_nat_digits [of n] by simp
  then show "\<forall>n. n \<le> 2 ^ 53 \<longrightarrow> ttl_of (Some (''max-age='' @ show_nat n)) = Num (int n)"
    by (intro allI impI)
  have "ttl_of (Some (''max-age='' @ ''120'')) = Num (int (digits_value 10 ''120''))"
    by (rule digits) (simp_all add: is_digit_10_iff)
  then show "ttl_of (Some ''max-age=120'') = Num 120"
    by (simp add: digits_value_def digit_val_def)
  show "ttl_of (Some ''no-cache'') = Num 0"
    by (simp add: ttl_of_def startsWith_def)
  show "\<forall>c later key data. store c later key data (Num 0) = (cache c, [])
                           \<and> store c later key data NaN = (cache c, [])"
    by (simp add: store_falsy)
qed

text \<open>
  The theorem at a header without the prefix, a signed value with white space and
  trailing text, a value without digits, a hexadecimal value, an unsigned value with
  leading zeros and the rendering of 7.
\<close>

theorem ttl_from_cache_control_witness:
  "ttl_of (Some ''public, max-age=60'') = Num 0
   \<and> ttl_of (Some ''max-age= -0060, public'') = Num (- 60)
   \<and> ttl_of (Some ''max-age=none'') = NaN
   \<and> ttl_of (Some ''max-age=0x1f'') = Num 31
   \<and> ttl_of (Some ''max-age=0060'') = Num 60
   \<and> ttl_of (Some (''max-age='' @ show_nat 7)) = Num 7"
proof -
  have a: "\<not> startsWith ''public, max-age=60'' ''max-age=''"
    by (simp add: startsWith_def)
  have b: "(\<forall>c\<in>set '' ''. is_space c)
      \<and> ((''-'' = [] \<and> (- 1 :: int) = 1
            \<and> (''0060'' @ '', public'' = []
                \<or> (\<not> is_space (hd (''0060'' @ '', public'')) \<and> hd (''0060'' @ '', public'') \<noteq> CHR ''+''
                    \<and> hd (''0060'' @ '', public'') \<noteq> CHR ''-'')))
          \<or> (''-'' = ''+'' \<and> (- 1 :: int) = 1) \<or> (''-'' = ''-'' \<and> (- 1 :: int) = - 1))
      \<and> \<not> (\<exists>x r. (x = CHR ''x'' \<or> x = CHR ''X'') \<and> ''0060'' @ '', public'' = CHR ''0'' # x # r)
      \<and> (\<forall>c\<in>set ''0060''. is_digit 10 c) \<and> ('', public'' = [] \<or> \<not> is_digit 10 (hd '', public''))
      \<and> digits_value 10 ''0060'' \<le> 2 ^ 53"
    by (simp add: is_space_def is_digit_10_iff ttl_1f)
  have c: "(\<forall>c\<in>set ([] :: string). is_space c)
      \<and> (([] = ([] :: string) \<and> (1 :: int) = 1
            \<and> ([] @ ''none'' = []
                \<or> (\<not> is_space (hd ([] @ ''none'')) \<and> hd ([] @ ''none'') \<noteq> CHR ''+''
                    \<and> hd ([] @ ''none'') \<noteq> CHR ''-'')))
          \<or> ([] = ''+'' \<and> (1 :: int) = 1) \<or> ([] = ''-'' \<and> (1 :: int) = - 1))
      \<and> \<not> (\<exists>x r. (x = CHR ''x'' \<or> x = CHR ''X'') \<and> [] @ ''none'' = CHR ''0'' # x # r)
      \<and> (\<forall>c\<in>set ([] :: string). is_digit 10 c) \<and> (''none'' = [] \<or> \<not> is_digit 10 (hd ''none''))
      \<and> digits_value 10 [] \<le> 2 ^ 53"
    by (simp add: is_space_def is_digit_10_iff digits_value_def)
  have d: "(\<forall>c\<in>set ([] :: string). is_space c)
      \<and> (([] = ([] :: string) \<and> (1 :: int) = 1) \<or> ([] = ''+'' \<and> (1 :: int) = 1)
          \<or> ([] = ''-'' \<and> (1 :: int) = - 1))
      \<and> (CHR ''x'' = CHR ''x'' \<or> CHR ''x'' = CHR ''X'')
      \<and> (\<forall>c\<in>set ''1f''. is_digit 16 c) \<and> (([] :: string) = [] \<or> \<not> is_digit 16 (hd []))
      \<and> digits_value 16 ''1f'' \<le> 2 ^ 53"
    by (simp add: is_digit_def digit_val_def ttl_1f)
  have e: "''0060'' \<noteq> [] \<and> (\<forall>c\<in>set ''0060''. is_digit 10 c) \<and> digits_value 10 ''0060'' \<le> 2 ^ 53"
    by (simp add: is_digit_10_iff ttl_1f)
  have f: "(7::nat) \<le> 2 ^ 53" by simp
  note t = ttl_from_cache_control
  note t2 = t [THEN conjunct2, THEN conjunct1, rule_format]
  note t4 = t [THEN conjunct2, THEN conjunct2, THEN conjunct2, THEN conjunct1, rule_format]
  note t5 = t [THEN conjunct2, THEN conjunct2, THEN conjunct2, THEN conjunct2, THEN conjunct1,
    rule_format]
  note t6 = t [THEN conjunct2, THEN conjunct2, THEN conjunct2, THEN conjunct2, THEN conjunct2,
    THEN conjunct1, rule_format]
  note t7 = t [THEN conjunct2, THEN conjunct2, THEN conjunct2, THEN conjunct2, THEN conjunct2,
    THEN conjunct2, THEN conjunct1, rule_format]
  have 1: "ttl_of (Some ''public, max-age=60'') = Num 0"
    using a by (rule t2)
  have 2: "ttl_of (Some (''max-age='' @ '' '' @ ''-'' @ ''0060'' @ '', public'')) =
      (if ''0060'' = [] then NaN else Num (- 1 * int (digits_value 10 ''0060'')))"
    using b by (rule t4)
  have 3: "ttl_of (Some (''max-age='' @ [] @ [] @ [] @ ''none'')) =
      (if ([] :: string) = [] then NaN else Num (1 * int (digits_value 10 [])))"
    using c by (rule t4)
  have 4: "ttl_of (Some (''max-age='' @ [] @ [] @ CHR ''0'' # CHR ''x'' # ''1f'' @ [])) =
      (if ''1f'' = [] then NaN else Num (1 * int (digits_value 16 ''1f'')))"
    using d by (rule t5)
  have 5: "ttl_of (Some (''max-age='' @ ''0060'')) = Num (int (digits_value 10 ''0060''))"
    using e by (rule t6)
  have 6: "ttl_of (Some (''max-age='' @ show_nat 7)) = Num (int 7)"
    using f by (rule t7)
  from 1 2 3 4 5 6 show ?thesis
    by (simp add: ttl_1f)
qed

text \<open>
  C3 as stated fails for a header that starts with the prefix and is not followed by an
  unsigned integer: \<open>max-age=abc\<close> gives \<open>NaN\<close>, not \<open>0\<close>, and \<open>max-age=-5\<close>
  gives \<open>-5\<close>.
\<close>

theorem malformed_max_age_is_not_zero:
  "ttl_of (Some ''max-age=abc'') = NaN \<and> ttl_of (Some ''max-age=-5'') = Num (- 5)"
  by (simp add: ttl_of_def startsWith_def slice_def parseInt_def read_sign_def read_radix_def
      is_space_def is_digit_def digit_val_def digits_value_def)

section \<open>Properties of the cached fetch\<close>

lemma fetch_hit:
  assumes "truthy (cache_lookup c now (request_url c path q))"
  shows "Client_fetch net now later c path q =
           \<lparr>outcome = Inr (cache_lookup c now (request_url c path q)),
            cache_after = cache c, effects = []\<rparr>"
  using assms by (simp add: Client_fetch_def)

lemma fetch_miss:
  assumes "\<not> truthy (cache_lookup c now (request_url c path q))"
  shows "Client_fetch net now later c path q =
           (let u = request_url c path q; req = make_request c u in
            case net req of
              Rejected \<Rightarrow> failed c req TransportFailure
            | Response r \<Rightarrow>
                if \<not> ok r then failed c req (APIError (statusText r) (status r))
                else
                  (case json r of
                     None \<Rightarrow> failed c req DecodeFailure
                   | Some data \<Rightarrow>
                       \<lparr>outcome = Inr data,
                        cache_after = fst (store c later u data (ttl_of (headers_get r ''cache-control''))),
                        effects = NetRequest req # snd (store c later u data (ttl_of (headers_get r ''cache-control'')))\<rparr>))"
  using assms by (simp add: Client_fetch_def Let_def split: prod.splits fetch_result.splits option.splits)

lemma fetch_decoded:
  assumes "\<not> truthy (cache_lookup c now (request_url c path q))"
    and "net (make_request c (request_url c path q)) = Response r"
    and "ok r" and "json r = Some data"
  shows "Client_fetch net now later c path q =
           \<lparr>outcome = Inr data,
            cache_after = fst (store c later (request_url c path q) data (ttl_of (headers_get r ''cache-control''))),
            effects = NetRequest (make_request c (request_url c path q))
                      # snd (store c later (request_url c path q) data (ttl_of (headers_get r ''cache-control'')))\<rparr>"
  using assms(2-) by (simp add: fetch_miss [OF assms(1)] Let_def)

lemma store_Num:
  "store c later key data (Num n) =
     (case cache c of
        Some m \<Rightarrow> if n \<noteq> 0 then (Some (cache_set m later key data n), [CacheSet key data n]) else (cache c, [])
      | None \<Rightarrow> (None, []))"
  by (simp add: store_def split: option.splits)

lemma cache_lookup_after_set:
  assumes "cache c' = Some (cache_set m t1 key v ttl)" and "t2 < t1 + ttl"
  shows "cache_lookup c' t2 key = v"
  using assms by (simp add: cache_lookup_def cache_get_def cache_set_def)

lemma request_url_after [simp]: "request_url (client_after c out) path q = request_url c path q"
  by (simp add: request_url_def client_after_def)

subsection \<open>The fixtures\<close>

lemma example_client_simps:
  "cache example_client = Some Map.empty"
  "baseURL example_client = ''https://api.brawlstars.com/v1''"
  "token example_client = ''token''"
  by (simp_all add: example_client_def new_client_def default_options_def)

lemma example_client_miss: "\<not> truthy (cache_lookup example_client now key)"
  by (simp add: cache_lookup_def example_client_simps cache_get_def)

lemma ok_response_simps:
  "ok (ok_response cc body)"
  "json (ok_response cc body) = Some body"
  "headers_get (ok_response cc body) ''cache-control'' = cc"
  by (simp_all add: ok_def ok_response_def headers_get_def split: option.splits)

lemma first_call_example:
  "Client_fetch (respond (ok_response cc v)) t0 t1 example_client path q =
     \<lparr>outcome = Inr v,
      cache_after = fst (store example_client t1 (request_url example_client path q) v (ttl_of cc)),
      effects = NetRequest (make_request example_client (request_url example_client path q))
                # snd (store example_client t1 (request_url example_client path q) v (ttl_of cc))\<rparr>"
  using fetch_decoded [where net = "respond (ok_response cc v)" and r = "ok_response cc v",
      OF example_client_miss]
  by (simp add: respond_def ok_response_simps)

lemma ttl_60: "ttl_of (Some ''max-age=60'') = Num 60"
  by (simp add: ttl_of_def startsWith_def slice_def parseInt_def read_sign_def read_radix_def
      is_space_def is_digit_def digit_val_def digits_value_def)

lemma rotation_url:
  "request_url example_client ''/events/rotation'' None =
     ''https://api.brawlstars.com/v1/events/rotation''"
  by (simp add: request_url_def example_client_simps)

section \<open>Cache hits\<close>

text \<open>
  C1 (as amended): on a client with a cache, after a call that missed the cache, received
  a successful response with a positive time to live and decoded it to a truthy value
  (every object and every array is one), a second call with the same path and query
  whose lookup happens before the deadline sends no request, makes no cache write and
  returns the same value, whatever the network would have answered.
\<close>

theorem cache_hit_avoids_network:
  assumes "cache c = Some m"
    and "\<not> truthy (cache_lookup c now (request_url c path q))"
    and "net (make_request c (request_url c path q)) = Response r"
    and "ok r" and "json r = Some v"
    and "ttl_of (headers_get r ''cache-control'') = Num ttl" and "0 < ttl"
    and "truthy v" and "now' < later + ttl"
  shows "outcome (Client_fetch net now later c path q) = Inr v
         \<and> Client_fetch net' now' later' (client_after c (Client_fetch net now later c path q)) path q =
             \<lparr>outcome = Inr v,
              cache_after = cache (client_after c (Client_fetch net now later c path q)),
              effects = []\<rparr>"
proof -
  let ?u = "request_url c path q"
  let ?out = "Client_fetch net now later c path q"
  have out: "?out = \<lparr>outcome = Inr v, cache_after = Some (cache_set m later ?u v ttl),
                     effects = [NetRequest (make_request c ?u), CacheSet ?u v ttl]\<rparr>"
    using assms(1,6,7) by (simp add: fetch_decoded [where net = net, OF assms(2-5)] store_Num)
  then have "cache (client_after c ?out) = Some (cache_set m later ?u v ttl)"
    by (simp add: client_after_def)
  then have "cache_lookup (client_after c ?out) now' ?u = v"
    using assms(9) by (rule cache_lookup_after_set)
  then have "Client_fetch net' now' later' (client_after c ?out) path q =
               \<lparr>outcome = Inr v, cache_after = cache (client_after c ?out), effects = []\<rparr>"
    using assms(8) fetch_hit [of "client_after c ?out" now' path q net' later'] by simp
  with out show ?thesis by simp
qed


text \<open>The theorem at a client that fetches the map rotation twice, 59 seconds apart.\<close>

theorem cache_hit_avoids_network_witness:
  "Client_fetch (respond not_found) 59 59
     (client_after example_client
        (Client_fetch (respond (ok_response (Some ''max-age=60'') (JObj []))) 0 0
           example_client ''/events/rotation'' None))
     ''/events/rotation'' None =
   \<lparr>outcome = Inr (JObj []),
    cache_after =
      Some (cache_set Map.empty 0 ''https://api.brawlstars.com/v1/events/rotation'' (JObj []) 60),
    effects = []\<rparr>"
proof -
  let ?r = "ok_response (Some ''max-age=60'') (JObj [])"
  have 1: "cache example_client = Some Map.empty"
    by (rule example_client_simps)
  have 2: "\<not> truthy (cache_lookup example_client 0 (request_url example_client ''/events/rotation'' None))"
    by (rule example_client_miss)
  have 3: "respond ?r (make_request example_client (request_url example_client ''/events/rotation'' None)) = Response ?r"
    by (simp add: respond_def)
  have 4: "ok ?r" and 5: "json ?r = Some (JObj [])"
    by (rule ok_response_simps)+
  have 6: "ttl_of (headers_get ?r ''cache-control'') = Num 60"
    by (simp add: ok_response_simps ttl_60)
  have 7: "(0::int) < 60" and 8: "truthy (JObj [])" and 9: "(59::int) < 0 + 60"
    by simp_all
  from cache_hit_avoids_network [where net = "respond ?r" and net' = "respond not_found" and c = example_client
      and now = 0 and later = 0 and now' = 59 and later' = 59 and ttl = 60,
      OF 1 2 3 4 5 6 7 8 9]
  show ?thesis
    by (simp add: first_call_example client_after_def store_Num example_client_simps ttl_60 rotation_url)
qed

text \<open>
  C1 as stated fails for a falsy payload: the body \<open>false\<close> is stored for 60 seconds,
  and the second call one second later still sends a request.
\<close>

theorem falsy_payload_refetched:
  "outcome (Client_fetch (respond (ok_response (Some ''max-age=60'') (JBool False))) 0 0
      example_client ''/events/rotation'' None) = Inr (JBool False)
   \<and> effects (Client_fetch (respond (ok_response (Some ''max-age=60'') (JBool False))) 0 0
      example_client ''/events/rotation'' None) =
       [NetRequest (make_request example_client ''https://api.brawlstars.com/v1/events/rotation''),
        CacheSet ''https://api.brawlstars.com/v1/events/rotation'' (JBool False) 60]
   \<and> effects (Client_fetch (respond (ok_response (Some ''max-age=60'') (JBool False))) 1 1
        (client_after example_client
           (Client_fetch (respond (ok_response (Some ''max-age=60'') (JBool False))) 0 0
              example_client ''/events/rotation'' None))
        ''/events/rotation'' None) \<noteq> []"
proof -
  let ?net = "respond (ok_response (Some ''max-age=60'') (JBool False))"
  let ?u = "''https://api.brawlstars.com/v1/events/rotation''"
  let ?c' = "client_after example_client (Client_fetch ?net 0 0 example_client ''/events/rotation'' None)"
  have first: "Client_fetch ?net 0 0 example_client ''/events/rotation'' None =
      \<lparr>outcome = Inr (JBool False),
       cache_after = Some (cache_set Map.empty 0 ?u (JBool False) 60),
       effects = [NetRequest (make_request example_client ?u), CacheSet ?u (JBool False) 60]\<rparr>"
    by (simp add: first_call_example store_Num example_client_simps ttl_60 rotation_url)
  have "cache ?c' = Some (cache_set Map.empty 0 ?u (JBool False) 60)"
    by (simp add: first client_after_def)
  then have "cache_lookup ?c' 1 ?u = JBool False"
    by (rule cache_lookup_after_set) simp
  then have miss: "\<not> truthy (cache_lookup ?c' 1 (request_url ?c' ''/events/rotation'' None))"
    by (simp add: rotation_url)
  have "effects (Client_fetch ?net 1 1 ?c' ''/events/rotation'' None) \<noteq> []"
    by (subst fetch_miss [OF miss]) (simp add: Let_def respond_def ok_response_simps)
  with first show ?thesis by simp
qed

section \<open>HTTP failures\<close>

text \<open>
  C4: a call that reaches the network and receives a response whose status is outside
  200 to 299 fails with an \<open>APIError\<close> carrying the status text as message and the
  status code; the cache is left as it was and no \<open>set\<close> call is made.
\<close>

theorem http_error_mapping:
  assumes "\<not> truthy (cache_lookup c now (request_url c path q))"
    and "net (make_request c (request_url c path q)) = Response r"
    and "\<not> (200 \<le> status r \<and> status r \<le> 299)"
  shows "Client_fetch net now later c path q =
           \<lparr>outcome = Inl (APIError (statusText r) (status r)),
            cache_after = cache c,
            effects = [NetRequest (make_request c (request_url c path q))]\<rparr>"
proof -
  from assms(3) have "\<not> ok r" by (auto simp: ok_def)
  with assms(2) show ?thesis
    by (simp add: fetch_miss [OF assms(1)] Let_def failed_def)
qed

text \<open>
  The 404 response with status text \<open>Not Found\<close>: the error has status 404 and message
  \<open>Not Found\<close>, and the cache stays empty.
\<close>

theorem http_error_mapping_witness:
  "Client_fetch (respond not_found) 0 0 example_client ''/players/%232Q0VVCJ2'' None =
     \<lparr>outcome = Inl (APIError ''Not Found'' 404),
      cache_after = Some Map.empty,
      effects = [NetRequest (make_request example_client
                   ''https://api.brawlstars.com/v1/players/%232Q0VVCJ2'')]\<rparr>"
proof -
  have 2: "respond not_found (make_request example_client
             (request_url example_client ''/players/%232Q0VVCJ2'' None)) = Response not_found"
    by (simp add: respond_def)
  have 3: "\<not> (200 \<le> status not_found \<and> status not_found \<le> 299)"
    by (simp add: not_found_def)
  from http_error_mapping [where net = "respond not_found" and later = 0, OF example_client_miss 2 3]
  show ?thesis
    by (simp add: not_found_def example_client_simps request_url_def)
qed

section \<open>Cache writes\<close>

lemma store_sets:
  assumes "CacheSet key v n \<in> set (snd (store c later u data ttl))"
  shows "ttl = Num n \<and> n \<noteq> 0 \<and> key = u \<and> v = data"
  using assms by (cases ttl) (auto simp: store_def split: option.splits if_splits)

lemma fetch_sets:
  assumes "CacheSet key v n \<in> set (effects (Client_fetch net now later c path q))"
  shows "key = request_url c path q \<and> n \<noteq> 0
         \<and> (\<exists>r. net (make_request c key) = Response r \<and> ok r \<and> json r = Some v
                \<and> ttl_of (headers_get r ''cache-control'') = Num n)"
proof (cases "truthy (cache_lookup c now (request_url c path q))")
  case True
  with assms show ?thesis by (simp add: fetch_hit)
next
  case False
  show ?thesis
  proof (cases "net (make_request c (request_url c path q))")
    case Rejected
    with assms False show ?thesis
      by (simp add: fetch_miss Let_def failed_def)
  next
    case (Response r)
    show ?thesis
    proof (cases "ok r \<and> json r \<noteq> None")
      case True
      then obtain data where data: "json r = Some data" and "ok r" by auto
      with assms False Response
      have "CacheSet key v n \<in> set (snd (store c later (request_url c path q) data
              (ttl_of (headers_get r ''cache-control''))))"
        by (simp add: fetch_miss Let_def)
      from store_sets [OF this] Response data \<open>ok r\<close> show ?thesis by auto
    next
      case False
      with assms \<open>\<not> truthy _\<close> Response show ?thesis
        by (auto simp: fetch_miss Let_def failed_def split: option.splits if_splits)
    qed
  qed
qed

lemma parseInt_digits_nonneg:
  assumes "ds \<noteq> []" and "\<forall>c\<in>set ds. is_digit 10 c"
  shows "parseInt ds = Num (int (digits_value 10 ds))"
  using parseInt_digits [OF assms, of "[]"] by simp

text \<open>
  C5 (as amended): the fetch layer never calls \<open>set\<close> with a time to live of zero.
  Every \<open>set\<close> call of a fetch carries the non-zero number computed from the
  \<open>cache-control\<close> header of the response; when the computed value is \<open>0\<close> or
  \<open>NaN\<close> the call is skipped and the cache is left as it was; and when the header is
  \<open>max-age=\<close> followed by an unsigned decimal integer, the value passed is positive.
\<close>

theorem set_never_called_with_zero:
  "(\<forall>key v n. CacheSet key v n \<in> set (effects (Client_fetch net now later c path q))
       \<longrightarrow> n \<noteq> 0
           \<and> (\<exists>r. net (make_request c (request_url c path q)) = Response r
                 \<and> ttl_of (headers_get r ''cache-control'') = Num n))
   \<and> (\<forall>r. net (make_request c (request_url c path q)) = Response r
          \<and> (ttl_of (headers_get r ''cache-control'') = Num 0
              \<or> ttl_of (headers_get r ''cache-control'') = NaN)
       \<longrightarrow> cache_after (Client_fetch net now later c path q) = cache c
           \<and> (\<forall>key v n. CacheSet key v n \<notin> set (effects (Client_fetch net now later c path q))))
   \<and> (\<forall>r ds. net (make_request c (request_url c path q)) = Response r
          \<and> headers_get r ''cache-control'' = Some (''max-age='' @ ds)
          \<and> ds \<noteq> [] \<and> (\<forall>d\<in>set ds. is_digit 10 d)
       \<longrightarrow> (\<forall>key v n. CacheSet key v n \<in> set (effects (Client_fetch net now later c path q))
              \<longrightarrow> 0 < n))"
proof -
  let ?out = "Client_fetch net now later c path q"
  let ?u = "request_url c path q"
  have a: "n \<noteq> 0 \<and> (\<exists>r. net (make_request c ?u) = Response r
                 \<and> ttl_of (headers_get r ''cache-control'') = Num n)"
    if "CacheSet key v n \<in> set (effects ?out)" for key v n
    using fetch_sets [OF that] by auto
  have b: "cache_after ?out = cache c \<and> (\<forall>key v n. CacheSet key v n \<notin> set (effects ?out))"
    if r: "net (make_request c ?u) = Response r
          \<and> (ttl_of (headers_get r ''cache-control'') = Num 0
              \<or> ttl_of (headers_get r ''cache-control'') = NaN)" for r
  proof
    from r have st: "store c later ?u data (ttl_of (headers_get r ''cache-control'')) = (cache c, [])"
      for data
      by (auto simp: store_falsy)
    show "cache_after ?out = cache c"
    proof (cases "truthy (cache_lookup c now ?u)")
      case True
      then show ?thesis by (simp add: fetch_hit)
    next
      case False
      with r st show ?thesis
        by (auto simp: fetch_miss Let_def failed_def split: option.splits)
    qed
    show "\<forall>key v n. CacheSet key v n \<notin> set (effects ?out)"
    proof (intro allI notI)
      fix key v n
      assume "CacheSet key v n \<in> set (effects ?out)"
      from fetch_sets [OF this] r show False by auto
    qed
  qed
  have c: "0 < n"
    if r: "net (make_request c ?u) = Response r
          \<and> headers_get r ''cache-control'' = Some (''max-age='' @ ds)
          \<and> ds \<noteq> [] \<and> (\<forall>d\<in>set ds. is_digit 10 d)"
      and ev: "CacheSet key v n \<in> set (effects ?out)" for r ds key v n
  proof -
    from fetch_sets [OF ev] r
    have "n \<noteq> 0" and "ttl_of (Some (''max-age='' @ ds)) = Num n"
      by auto
    moreover from r have "parseInt ds = Num (int (digits_value 10 ds))"
      by (intro parseInt_digits_nonneg) auto
    ultimately show "0 < n"
      unfolding ttl_of_max_age by simp
  qed
  from a b c show ?thesis by blast
qed


lemma ttl_minus_5: "ttl_of (Some ''max-age=-5'') = Num (- 5)"
  by (simp add: ttl_of_def startsWith_def slice_def parseInt_def read_sign_def read_radix_def
      is_space_def is_digit_def digit_val_def digits_value_def)

lemma ttl_no_cache: "ttl_of (Some ''no-cache'') = Num 0"
  by (simp add: ttl_of_def startsWith_def)

lemma brawlers_url:
  "request_url example_client ''/brawlers'' None = ''https://api.brawlstars.com/v1/brawlers''"
  by (simp add: request_url_def example_client_simps)

lemma stored_example:
  "Client_fetch (respond (ok_response (Some ''max-age=60'') v)) t0 t1 example_client path q =
     \<lparr>outcome = Inr v,
      cache_after = Some (cache_set Map.empty t1 (request_url example_client path q) v 60),
      effects = [NetRequest (make_request example_client (request_url example_client path q)),
                 CacheSet (request_url example_client path q) v 60]\<rparr>"
  by (simp add: first_call_example store_Num example_client_simps ttl_60)

lemma respond_simp: "respond r req = Response r"
  by (simp add: respond_def)

text \<open>The theorem at the headers \<open>max-age=60\<close> and \<open>no-cache\<close>.\<close>

theorem set_never_called_with_zero_witness:
  "CacheSet ''https://api.brawlstars.com/v1/brawlers'' (JArr [] []) 60
     \<in> set (effects (Client_fetch (respond (ok_response (Some ''max-age=60'') (JArr [] []))) 0 0
                 example_client ''/brawlers'' None))
   \<and> (0::int) < 60
   \<and> ttl_of (headers_get (ok_response (Some ''no-cache'') (JArr [] [])) ''cache-control'') = Num 0
   \<and> cache_after (Client_fetch (respond (ok_response (Some ''no-cache'') (JArr [] []))) 0 0
        example_client ''/brawlers'' None) = cache example_client
   \<and> CacheSet ''https://api.brawlstars.com/v1/brawlers'' (JArr [] []) 60
     \<notin> set (effects (Client_fetch (respond (ok_response (Some ''no-cache'') (JArr [] []))) 0 0
                 example_client ''/brawlers'' None))"
proof -
  let ?u = "''https://api.brawlstars.com/v1/brawlers''"
  let ?r60 = "ok_response (Some ''max-age=60'') (JArr [] [])"
  let ?r0 = "ok_response (Some ''no-cache'') (JArr [] [])"
  have ev: "CacheSet ?u (JArr [] []) 60
      \<in> set (effects (Client_fetch (respond ?r60) 0 0 example_client ''/brawlers'' None))"
    by (simp add: stored_example brawlers_url)
  have r60: "respond ?r60 (make_request example_client (request_url example_client ''/brawlers'' None))
        = Response ?r60
      \<and> headers_get ?r60 ''cache-control'' = Some (''max-age='' @ ''60'')
      \<and> ''60'' \<noteq> [] \<and> (\<forall>d\<in>set ''60''. is_digit 10 d)"
    by (simp add: respond_simp ok_response_simps is_digit_10_iff)
  have r0: "respond ?r0 (make_request example_client (request_url example_client ''/brawlers'' None))
        = Response ?r0
      \<and> (ttl_of (headers_get ?r0 ''cache-control'') = Num 0
          \<or> ttl_of (headers_get ?r0 ''cache-control'') = NaN)"
    by (simp add: respond_simp ok_response_simps ttl_no_cache)
  from set_never_called_with_zero [of "respond ?r60" 0 0 example_client "''/brawlers''" None] ev r60
  have "(0::int) < 60" by blast
  moreover
  from set_never_called_with_zero [of "respond ?r0" 0 0 example_client "''/brawlers''" None] r0
  have "cache_after (Client_fetch (respond ?r0) 0 0 example_client ''/brawlers'' None)
          = cache example_client
        \<and> CacheSet ?u (JArr [] []) 60
          \<notin> set (effects (Client_fetch (respond ?r0) 0 0 example_client ''/brawlers'' None))"
    by blast
  ultimately show ?thesis
    using ev r0 by (simp add: ok_response_simps ttl_no_cache)
qed

text \<open>
  C5 as stated fails for a negative value: with the header \<open>max-age=-5\<close> the number
  \<open>-5\<close> is truthy and \<open>set\<close> is called with it.
\<close>

theorem set_called_with_negative_ttl:
  "effects (Client_fetch (respond (ok_response (Some ''max-age=-5'') (JArr [] []))) 0 0
      example_client ''/brawlers'' None) =
     [NetRequest (make_request example_client ''https://api.brawlstars.com/v1/brawlers''),
      CacheSet ''https://api.brawlstars.com/v1/brawlers'' (JArr [] []) (- 5)]"
  by (simp add: first_call_example store_Num example_client_simps ttl_minus_5 brawlers_url)

section \<open>The truthy check of the lookup\<close>

text \<open>
  C6 (as amended): for a key that is present and unexpired, the call short-circuits
  (returns the stored value, sends nothing) if the stored value is truthy, and sends a
  request if it is not. Zero, \<open>false\<close>, \<open>null\<close> and the empty string are falsy; the
  empty array and the empty object are truthy, so they are cache hits.
\<close>

theorem lookup_is_truthy_check:
  assumes "cache c = Some m" and "cache_get m now (request_url c path q) = Some v"
  shows "(truthy v \<longrightarrow>
            Client_fetch net now later c path q =
              \<lparr>outcome = Inr v, cache_after = cache c, effects = []\<rparr>)
         \<and> (\<not> truthy v \<longrightarrow>
              (\<exists>rest. effects (Client_fetch net now later c path q) =
                 NetRequest (make_request c (request_url c path q)) # rest))
         \<and> \<not> truthy (JNum (Num 0)) \<and> \<not> truthy (JBool False) \<and> \<not> truthy JNull
         \<and> \<not> truthy (JStr []) \<and> truthy (JArr [] []) \<and> truthy (JObj [])"
proof -
  from assms have lookup: "cache_lookup c now (request_url c path q) = v"
    by (simp add: cache_lookup_def)
  have hit: "Client_fetch net now later c path q =
      \<lparr>outcome = Inr v, cache_after = cache c, effects = []\<rparr>" if "truthy v"
    using that lookup fetch_hit [of c now path q net later] by simp
  have miss: "\<exists>rest. effects (Client_fetch net now later c path q) =
      NetRequest (make_request c (request_url c path q)) # rest" if "\<not> truthy v"
  proof -
    from that lookup have "\<not> truthy (cache_lookup c now (request_url c path q))" by simp
    then show ?thesis
      by (subst fetch_miss)
        (auto simp: Let_def failed_def split: fetch_result.splits option.splits)
  qed
  from hit miss show ?thesis by simp
qed

lemma cached_example:
  "cache (client_after example_client
     (Client_fetch (respond (ok_response (Some ''max-age=60'') v)) t0 t1 example_client path q)) =
   Some (cache_set Map.empty t1 (request_url example_client path q) v 60)"
  by (simp add: stored_example client_after_def)

lemma cache_get_after_set:
  "now < later + ttl \<Longrightarrow> cache_get (cache_set m later key v ttl) now key = Some v"
  by (simp add: cache_get_def cache_set_def)

text \<open>The theorem at a stored empty object (a hit) and a stored zero (a miss).\<close>

theorem lookup_is_truthy_check_witness:
  "Client_fetch (respond not_found) 1 1
     (client_after example_client
        (Client_fetch (respond (ok_response (Some ''max-age=60'') (JObj []))) 0 0
           example_client ''/brawlers'' None))
     ''/brawlers'' None =
   \<lparr>outcome = Inr (JObj []),
    cache_after = Some (cache_set Map.empty 0 ''https://api.brawlstars.com/v1/brawlers'' (JObj []) 60),
    effects = []\<rparr>
   \<and> effects (Client_fetch (respond not_found) 1 1
       (client_after example_client
          (Client_fetch (respond (ok_response (Some ''max-age=60'') (JNum (Num 0)))) 0 0
             example_client ''/brawlers'' None))
       ''/brawlers'' None) \<noteq> []"
proof -
  let ?c = "\<lambda>v. client_after example_client
        (Client_fetch (respond (ok_response (Some ''max-age=60'') v)) 0 0
           example_client ''/brawlers'' None)"
  let ?m = "\<lambda>v. cache_set Map.empty 0 (request_url example_client ''/brawlers'' None) v 60"
  have 1: "cache (?c v) = Some (?m v)" for v
    by (rule cached_example)
  have 2: "cache_get (?m v) 1 (request_url (?c v) ''/brawlers'' None) = Some v" for v
    by (simp add: cache_get_after_set)
  have t: "truthy (JObj [])" and f: "\<not> truthy (JNum (Num 0))"
    by simp_all
  from lookup_is_truthy_check [OF 1 2, of "JObj []" "respond not_found" 1] t
  have "Client_fetch (respond not_found) 1 1 (?c (JObj [])) ''/brawlers'' None =
      \<lparr>outcome = Inr (JObj []), cache_after = cache (?c (JObj [])), effects = []\<rparr>"
    by blast
  moreover
  from lookup_is_truthy_check [OF 1 2, of "JNum (Num 0)" "respond not_found" 1] f
  have "effects (Client_fetch (respond not_found) 1 1 (?c (JNum (Num 0))) ''/brawlers'' None) \<noteq> []"
    by auto
  ultimately show ?thesis
    by (simp add: 1 brawlers_url)
qed

text \<open>
  C6 as stated fails for the empty array: stored for 60 seconds, it is returned one
  second later without a request.
\<close>

theorem empty_array_is_a_hit:
  "Client_fetch (respond not_found) 1 1
     (client_after example_client
        (Client_fetch (respond (ok_response (Some ''max-age=60'') (JArr [] []))) 0 0
           example_client ''/brawlers'' None))
     ''/brawlers'' None =
   \<lparr>outcome = Inr (JArr [] []),
    cache_after = Some (cache_set Map.empty 0 ''https://api.brawlstars.com/v1/brawlers'' (JArr [] []) 60),
    effects = []\<rparr>"
proof -
  let ?c = "client_after example_client
        (Client_fetch (respond (ok_response (Some ''max-age=60'') (JArr [] []))) 0 0
           example_client ''/brawlers'' None)"
  have c: "cache ?c = Some (cache_set Map.empty 0 (request_url example_client ''/brawlers'' None) (JArr [] []) 60)"
    by (rule cached_example)
  then have "cache_lookup ?c 1 (request_url ?c ''/brawlers'' None) = JArr [] []"
    by (simp add: cache_lookup_def cache_get_after_set)
  then show ?thesis
    using fetch_hit [of ?c 1 "''/brawlers''" None "respond not_found" 1] c
    by (simp add: brawlers_url)
qed


section \<open>Text after the max-age value\<close>

text \<open>
  C10 (as amended): when \<open>max-age=\<close> is followed by a run of decimal digits (of value
  up to \<open>2 ^ 53\<close>) and then by text that starts with a non-digit, the time to live is
  the value of the digit run, unless the run is the single digit \<open>0\<close> followed by
  \<open>x\<close> or \<open>X\<close>, which starts a hexadecimal number. The response is stored under
  that time to live when it is positive, the client has a cache and the response is
  successful and decodes.
\<close>

theorem max_age_with_trailing_text:
  assumes "ds \<noteq> []" and "\<forall>d\<in>set ds. is_digit 10 d"
    and "rest \<noteq> []" and "\<not> is_digit 10 (hd rest)"
    and "\<not> (ds = ''0'' \<and> (hd rest = CHR ''x'' \<or> hd rest = CHR ''X''))"
    and "digits_value 10 ds \<le> 2 ^ 53"
  shows "ttl_of (Some (''max-age='' @ ds @ rest)) = Num (int (digits_value 10 ds))
         \<and> (cache c = Some m
              \<and> \<not> truthy (cache_lookup c now (request_url c path q))
              \<and> net (make_request c (request_url c path q)) = Response r
              \<and> ok r \<and> json r = Some data
              \<and> headers_get r ''cache-control'' = Some (''max-age='' @ ds @ rest)
              \<and> 0 < digits_value 10 ds
            \<longrightarrow> Client_fetch net now later c path q =
                  \<lparr>outcome = Inr data,
                   cache_after = Some (cache_set m later (request_url c path q) data
                                         (int (digits_value 10 ds))),
                   effects = [NetRequest (make_request c (request_url c path q)),
                              CacheSet (request_url c path q) data (int (digits_value 10 ds))]\<rparr>)"
proof -
  have "parseInt (ds @ rest) = Num (int (digits_value 10 ds))"
    using assms(1-5) by (intro parseInt_digits) auto
  then have ttl: "ttl_of (Some (''max-age='' @ ds @ rest)) = Num (int (digits_value 10 ds))"
    unfolding ttl_of_max_age .
  have "Client_fetch net now later c path q =
          \<lparr>outcome = Inr data,
           cache_after = Some (cache_set m later (request_url c path q) data
                                 (int (digits_value 10 ds))),
           effects = [NetRequest (make_request c (request_url c path q)),
                      CacheSet (request_url c path q) data (int (digits_value 10 ds))]\<rparr>"
    if "cache c = Some m"
      and miss: "\<not> truthy (cache_lookup c now (request_url c path q))"
      and r: "net (make_request c (request_url c path q)) = Response r" "ok r" "json r = Some data"
      and h: "headers_get r ''cache-control'' = Some (''max-age='' @ ds @ rest)"
      and pos: "0 < digits_value 10 ds"
    using that(1) pos
    by (simp only: fetch_decoded [where net = net, OF miss r] h ttl) (simp add: store_Num)
  with ttl show ?thesis by blast
qed

text \<open>The theorem at the header \<open>max-age=120, must-revalidate\<close>.\<close>

theorem max_age_with_trailing_text_witness:
  "ttl_of (Some ''max-age=120, must-revalidate'') = Num 120
   \<and> Client_fetch (respond (ok_response (Some ''max-age=120, must-revalidate'') (JArr [] []))) 0 2
       example_client ''/brawlers'' None =
     \<lparr>outcome = Inr (JArr [] []),
      cache_after = Some (cache_set Map.empty 2 ''https://api.brawlstars.com/v1/brawlers'' (JArr [] []) 120),
      effects = [NetRequest (make_request example_client ''https://api.brawlstars.com/v1/brawlers''),
                 CacheSet ''https://api.brawlstars.com/v1/brawlers'' (JArr [] []) 120]\<rparr>"
proof -
  let ?r = "ok_response (Some ''max-age=120, must-revalidate'') (JArr [] [])"
  have v: "digits_value 10 ''120'' = 120"
    by (simp add: digits_value_def digit_val_def)
  have 1: "''120'' \<noteq> []" and 2: "\<forall>d\<in>set ''120''. is_digit 10 d"
    and 3: "'', must-revalidate'' \<noteq> []" and 4: "\<not> is_digit 10 (hd '', must-revalidate'')"
    and 5: "\<not> (''120'' = ''0'' \<and> (hd '', must-revalidate'' = CHR ''x'' \<or> hd '', must-revalidate'' = CHR ''X''))"
    and 6: "digits_value 10 ''120'' \<le> 2 ^ 53"
    by (simp_all add: is_digit_10_iff v)
  have pre: "cache example_client = Some Map.empty
      \<and> \<not> truthy (cache_lookup example_client 0 (request_url example_client ''/brawlers'' None))
      \<and> respond ?r (make_request example_client (request_url example_client ''/brawlers'' None)) = Response ?r
      \<and> ok ?r \<and> json ?r = Some (JArr [] [])
      \<and> headers_get ?r ''cache-control'' = Some (''max-age='' @ ''120'' @ '', must-revalidate'')
      \<and> 0 < digits_value 10 ''120''"
    by (simp add: example_client_simps example_client_miss respond_simp ok_response_simps v)
  from max_age_with_trailing_text [OF 1 2 3 4 5 6, of example_client Map.empty 0 "''/brawlers''" None
      "respond ?r" ?r "JArr [] []" 2] pre
  have "ttl_of (Some (''max-age='' @ ''120'' @ '', must-revalidate'')) = Num (int (digits_value 10 ''120''))"
    and "Client_fetch (respond ?r) 0 2 example_client ''/brawlers'' None =
          \<lparr>outcome = Inr (JArr [] []),
           cache_after = Some (cache_set Map.empty 2 (request_url example_client ''/brawlers'' None)
                                 (JArr [] []) (int (digits_value 10 ''120''))),
           effects = [NetRequest (make_request example_client (request_url example_client ''/brawlers'' None)),
                      CacheSet (request_url example_client ''/brawlers'' None) (JArr [] [])
                        (int (digits_value 10 ''120''))]\<rparr>"
    by blast+
  then show ?thesis
    by (simp add: v brawlers_url)
qed

text \<open>
  C10 as stated fails in two ways: the header \<open>max-age=0xF\<close> has the digit run \<open>0\<close>
  and gives 15, and the header \<open>max-age=0, must-revalidate\<close> gives 0, under which
  nothing is stored.
\<close>

theorem hex_prefix_and_zero_max_age:
  "ttl_of (Some ''max-age=0xF'') = Num 15
   \<and> digits_value 10 ''0'' = 0
   \<and> ttl_of (Some ''max-age=0, must-revalidate'') = Num 0
   \<and> Client_fetch (respond (ok_response (Some ''max-age=0, must-revalidate'') (JArr [] [])))
        0 0 example_client ''/brawlers'' None =
      \<lparr>outcome = Inr (JArr [] []),
       cache_after = Some Map.empty,
       effects = [NetRequest (make_request example_client ''https://api.brawlstars.com/v1/brawlers'')]\<rparr>"
proof -
  have a: "ttl_of (Some ''max-age=0xF'') = Num 15"
    by (simp add: ttl_of_def startsWith_def slice_def parseInt_def read_sign_def read_radix_def
      is_space_def is_digit_def digit_val_def digits_value_def)
  have b: "ttl_of (Some ''max-age=0, must-revalidate'') = Num 0"
    by (simp add: ttl_of_def startsWith_def slice_def parseInt_def read_sign_def read_radix_def
      is_space_def is_digit_def digit_val_def digits_value_def)
  have c: "digits_value 10 ''0'' = 0"
    by (simp add: digits_value_def digit_val_def)
  from a b c show ?thesis
    by (simp only: first_call_example) (simp add: store_Num example_client_simps brawlers_url)
qed

section \<open>The request URL\<close>

lemma stringify_Nil: "stringify [] = []"
  by (simp add: stringify_def)

lemma queryParams_None: "queryParams None = []"
  by (simp add: queryParams_def getProp_def)

lemma fields_of_nonempty: "f \<in> set (fields_of kv) \<Longrightarrow> f \<noteq> []"
  by (cases kv rule: fields_of.cases) auto

lemma fields_of_empty: "fields_of (k, v) = [] \<longleftrightarrow> (\<exists>ps. v = JArr [] ps)"
  by (cases "(k, v)" rule: fields_of.cases) auto

lemma join_empty:
  assumes "\<forall>f\<in>set fs. f \<noteq> []"
  shows "join sep fs = [] \<longleftrightarrow> fs = []"
  using assms by (cases "(sep, fs)" rule: join.cases) auto

lemma stringify_empty: "stringify q = [] \<longleftrightarrow> (\<forall>(k, v)\<in>set q. \<exists>ps. v = JArr [] ps)"
proof -
  have "\<forall>f\<in>set (concat (map fields_of q)). f \<noteq> []"
    by (auto dest: fields_of_nonempty)
  then have "stringify q = [] \<longleftrightarrow> concat (map fields_of q) = []"
    unfolding stringify_def by (rule join_empty)
  also have "\<dots> \<longleftrightarrow> (\<forall>kv\<in>set q. fields_of kv = [])"
    by simp
  also have "\<dots> \<longleftrightarrow> (\<forall>(k, v)\<in>set q. \<exists>ps. v = JArr [] ps)"
    by (auto simp: fields_of_empty)
  finally show ?thesis .
qed

text \<open>
  C7 (as amended): when the query argument is absent, the request URL (and cache key) is
  exactly the base URL followed by the path. Whenever a query mapping is passed, also an
  empty one, the separator \<open>?\<close> and the serialized query are appended, so an empty
  mapping gives the base URL, the path and \<open>?\<close>. The serialized query is empty
  exactly when no key contributes a field, that is when every value is an empty array
  (as for the empty mapping). The accessors with query parameters always pass a mapping
  (empty when no parameter is given); the others pass none.
\<close>

theorem query_separator:
  "request_url c path None = baseURL c @ path
   \<and> request_url c path (Some q) = baseURL c @ path @ ''?'' @ stringify q
   \<and> request_url c path (Some []) = baseURL c @ path @ ''?''
   \<and> (stringify q = [] \<longleftrightarrow> (\<forall>(k, v)\<in>set q. \<exists>ps. v = JArr [] ps))
   \<and> getBrawlers net now later c None = Client_fetch net now later c ''/brawlers'' (Some [])
   \<and> getMapRotation net now later c = Client_fetch net now later c ''/events/rotation'' None"
proof -
  have "request_url c path (Some q) = baseURL c @ path @ ''?'' @ stringify q" for q
    by (simp add: request_url_def)
  moreover from this [of "[]"] have "request_url c path (Some []) = baseURL c @ path @ ''?''"
    by (simp add: stringify_Nil)
  moreover have "request_url c path None = baseURL c @ path"
    by (simp add: request_url_def)
  moreover have "getBrawlers net now later c None = Client_fetch net now later c ''/brawlers'' (Some [])"
    by (simp add: getBrawlers_def queryParams_None)
  moreover have "getMapRotation net now later c = Client_fetch net now later c ''/events/rotation'' None"
    by (simp add: getMapRotation_def)
  ultimately show ?thesis
    using stringify_empty [of q] by blast
qed

text \<open>The theorem at a mapping with one field and at a mapping with an empty array.\<close>

theorem query_separator_witness:
  "stringify [(''limit'', JNum (Num 5))] = ''limit=5''
   \<and> request_url example_client ''/brawlers'' (Some [(''limit'', JNum (Num 5))]) =
       ''https://api.brawlstars.com/v1/brawlers?limit=5''
   \<and> stringify [(''tags'', JArr [] [])] = []"
proof -
  have a: "\<not> (\<forall>(k, v)\<in>set [(''limit'', JNum (Num 5))]. \<exists>ps. v = JArr [] ps)"
    and b: "\<forall>(k, v)\<in>set [(''tags'', JArr [] [])]. \<exists>ps. v = JArr [] ps"
    by simp_all
  from query_separator [of example_client "''/brawlers''" "[(''limit'', JNum (Num 5))]"] a
  have "stringify [(''limit'', JNum (Num 5))] \<noteq> []"
    and "request_url example_client ''/brawlers'' (Some [(''limit'', JNum (Num 5))]) =
          baseURL example_client @ ''/brawlers'' @ ''?'' @ stringify [(''limit'', JNum (Num 5))]"
    by blast+
  moreover from query_separator [of _ _ "[(''tags'', JArr [] [])]"] b
  have "stringify [(''tags'', JArr [] [])] = []"
    by blast
  moreover have "stringify [(''limit'', JNum (Num 5))] = ''limit=5''"
    by (simp add: stringify_def qsEscape_def escapeChar_def noEscape_def show_int_def show_nat.simps)
  ultimately show ?thesis
    by (simp add: example_client_simps)
qed

text \<open>
  C7 as stated fails for the empty mapping: \<open>getBrawlers()\<close> requests the URL ending
  in \<open>/brawlers?\<close>, not the base URL followed by the path.
\<close>

theorem empty_query_appends_separator:
  "request_url example_client ''/brawlers'' (Some []) = ''https://api.brawlstars.com/v1/brawlers?''
   \<and> baseURL example_client @ ''/brawlers'' = ''https://api.brawlstars.com/v1/brawlers''
   \<and> effects (getBrawlers (respond not_found) 0 0 example_client None) =
       [NetRequest (make_request example_client ''https://api.brawlstars.com/v1/brawlers?'')]"
proof -
  have u: "request_url example_client ''/brawlers'' (Some []) = ''https://api.brawlstars.com/v1/brawlers?''"
    by (simp add: request_url_def example_client_simps stringify_Nil)
  have "effects (Client_fetch (respond not_found) 0 0 example_client ''/brawlers'' (Some [])) =
       [NetRequest (make_request example_client (request_url example_client ''/brawlers'' (Some [])))]"
    by (subst fetch_miss [OF example_client_miss])
      (simp add: Let_def respond_simp ok_def not_found_def failed_def)
  with u show ?thesis
    by (simp add: getBrawlers_def queryParams_None example_client_simps)
qed

section \<open>The query parameters of the accessors\<close>

lemma queryParams_eq:
  "queryParams (Some p) =
     map (\<lambda>k. (k, getProp p k)) (filter (\<lambda>k. truthy (getProp p k)) [''before'', ''after'', ''limit''])"
  by (simp add: queryParams_def Let_def)

lemma query_param_values:
  "getProp (queryParams (Some p)) ''before'' =
     (if truthy (getProp p ''before'') then getProp p ''before'' else JUndefined)"
  "getProp (queryParams (Some p)) ''after'' =
     (if truthy (getProp p ''after'') then getProp p ''after'' else JUndefined)"
  "getProp (queryParams (Some p)) ''limit'' =
     (if truthy (getProp p ''limit'') then getProp p ''limit'' else JUndefined)"
  by (simp_all add: queryParams_eq) (simp_all add: getProp_def)

text \<open>
  C8 (as amended): for every ranking, member and brawler accessor, the query mapping
  holds exactly those of \<open>before\<close>, \<open>after\<close> and \<open>limit\<close> whose value is truthy,
  each with its value as given, in this order; a parameter that is absent, \<open>undefined\<close>
  or otherwise falsy (the empty string, zero) has no key in the mapping, so no key with
  the value \<open>undefined\<close> is ever serialized, and the serialized query consists of the
  fields of the truthy parameters.
\<close>

theorem query_params_passed_when_truthy:
  "queryParams (Some p) =
     map (\<lambda>k. (k, getProp p k)) (filter (\<lambda>k. truthy (getProp p k)) [''before'', ''after'', ''limit''])
   \<and> JUndefined \<notin> snd ` set (queryParams arg)
   \<and> stringify (queryParams (Some p)) =
       join ''&'' (concat (map (\<lambda>k. fields_of (k, getProp p k))
                     (filter (\<lambda>k. truthy (getProp p k)) [''before'', ''after'', ''limit''])))
   \<and> getPlayerRankings net now later c country arg =
       Client_fetch net now later c (''/rankings/'' @ country @ ''/players'') (Some (queryParams arg))
   \<and> getClubRankings net now later c country arg =
       Client_fetch net now later c (''/rankings/'' @ country @ ''/clubs'') (Some (queryParams arg))
   \<and> getBrawlerRankings net now later c country brawler arg =
       Client_fetch net now later c (''/rankings/'' @ country @ ''/brawlers/'' @ brawler)
         (Some (queryParams arg))
   \<and> getClubMembers net now later c tag arg =
       Client_fetch net now later c (''/clubs/%23'' @ cleanTag tag @ ''/members'') (Some (queryParams arg))
   \<and> getBrawlers net now later c arg =
       Client_fetch net now later c ''/brawlers'' (Some (queryParams arg))
   \<and> getProp (queryParams (Some p)) ''before'' =
       (if truthy (getProp p ''before'') then getProp p ''before'' else JUndefined)
   \<and> getProp (queryParams (Some p)) ''after'' =
       (if truthy (getProp p ''after'') then getProp p ''after'' else JUndefined)
   \<and> getProp (queryParams (Some p)) ''limit'' =
       (if truthy (getProp p ''limit'') then getProp p ''limit'' else JUndefined)"
proof -
  have "JUndefined \<notin> snd ` set (queryParams arg)"
  proof (cases arg)
    case None
    then show ?thesis by (simp add: queryParams_None)
  next
    case (Some p)
    have "truthy v" if "v \<in> snd ` set (queryParams (Some p))" for v
      using that unfolding queryParams_eq by (auto simp del: filter.simps)
    from this [of JUndefined] Some show ?thesis by auto
  qed
  moreover have "stringify (queryParams (Some p)) =
       join ''&'' (concat (map (\<lambda>k. fields_of (k, getProp p k))
                     (filter (\<lambda>k. truthy (getProp p k)) [''before'', ''after'', ''limit''])))"
    unfolding queryParams_eq stringify_def by (simp add: comp_def)
  moreover note query_param_values [of p] queryParams_eq [of p]
  ultimately show ?thesis
    by (simp only: getPlayerRankings_def getClubRankings_def getBrawlerRankings_def
        getClubMembers_def getBrawlers_def simp_thms)
qed

text \<open>
  The theorem at \<open>{limit: 10, after: undefined, before: "abc"}\<close>: the query holds
  \<open>before\<close> and \<open>limit\<close>, and no field for \<open>after\<close> is serialized.
\<close>

theorem query_params_passed_when_truthy_witness:
  "queryParams (Some [(''limit'', JNum (Num 10)), (''after'', JUndefined), (''before'', JStr ''abc'')]) =
     [(''before'', JStr ''abc''), (''limit'', JNum (Num 10))]
   \<and> stringify (queryParams
        (Some [(''limit'', JNum (Num 10)), (''after'', JUndefined), (''before'', JStr ''abc'')])) =
       ''before=abc&limit=10''"
proof -
  let ?p = "[(''limit'', JNum (Num 10)), (''after'', JUndefined), (''before'', JStr ''abc'')]"
  have g: "getProp ?p ''before'' = JStr ''abc''" "getProp ?p ''after'' = JUndefined"
    "getProp ?p ''limit'' = JNum (Num 10)"
    by (simp_all add: getProp_def)
  from query_params_passed_when_truthy [of ?p]
  have "queryParams (Some ?p) =
      map (\<lambda>k. (k, getProp ?p k)) (filter (\<lambda>k. truthy (getProp ?p k)) [''before'', ''after'', ''limit''])"
    and "stringify (queryParams (Some ?p)) =
       join ''&'' (concat (map (\<lambda>k. fields_of (k, getProp ?p k))
                     (filter (\<lambda>k. truthy (getProp ?p k)) [''before'', ''after'', ''limit''])))"
    by blast+
  then show ?thesis
    by (simp add: g qsEscape_def escapeChar_def noEscape_def show_int_def show_nat.simps)
qed

text \<open>
  C8 as stated fails for a parameter that is present and falsy: \<open>limit: 0\<close> and
  \<open>before: ""\<close> are not passed on.
\<close>

theorem zero_limit_is_dropped:
  "getProp [(''limit'', JNum (Num 0))] ''limit'' = JNum (Num 0)
   \<and> queryParams (Some [(''limit'', JNum (Num 0))]) = []
   \<and> getProp [(''before'', JStr [])] ''before'' = JStr []
   \<and> queryParams (Some [(''before'', JStr [])]) = []"
  by (simp add: queryParams_eq getProp_def)


section \<open>The player accessor\<close>





section \<open>The order of the query parameters\<close>

lemma second_call_hit:
  assumes "cache c = Some m"
    and "\<not> truthy (cache_lookup c now (request_url c path q))"
    and "net (make_request c (request_url c path q)) = Response r"
    and "ok r" and "json r = Some v"
    and "ttl_of (headers_get r ''cache-control'') = Num ttl" and "0 < ttl"
    and "truthy v" and "now' < later + ttl"
  shows "outcome (Client_fetch net now later c path q) = Inr v
         \<and> Client_fetch net' now' later' (client_after c (Client_fetch net now later c path q)) path q =
             \<lparr>outcome = Inr v,
              cache_after = cache (client_after c (Client_fetch net now later c path q)),
              effects = []\<rparr>"
proof -
  let ?u = "request_url c path q"
  let ?out = "Client_fetch net now later c path q"
  have out: "?out = \<lparr>outcome = Inr v, cache_after = Some (cache_set m later ?u v ttl),
                     effects = [NetRequest (make_request c ?u), CacheSet ?u v ttl]\<rparr>"
    using assms(1,6,7) by (simp add: fetch_decoded [where net = net, OF assms(2-5)] store_Num)
  then have "cache (client_after c ?out) = Some (cache_set m later ?u v ttl)"
    by (simp add: client_after_def)
  then have "cache_lookup (client_after c ?out) now' ?u = v"
    using assms(9) by (rule cache_lookup_after_set)
  then have "Client_fetch net' now' later' (client_after c ?out) path q =
               \<lparr>outcome = Inr v, cache_after = cache (client_after c ?out), effects = []\<rparr>"
    using assms(8) fetch_hit [of "client_after c ?out" now' path q net' later'] by simp
  with out show ?thesis by simp
qed

lemma getProp_cong:
  assumes "distinct (map fst p)" and "distinct (map fst p')" and "set p = set p'"
  shows "getProp p = getProp p'"
proof -
  from assms have "map_of p = map_of p'"
    by (simp add: map_of_inject_set)
  then show ?thesis
    by (simp add: getProp_def fun_eq_iff)
qed

lemma queryParams_cong:
  assumes "distinct (map fst p)" and "distinct (map fst p')" and "set p = set p'"
  shows "queryParams (Some p) = queryParams (Some p')"
  unfolding queryParams_eq getProp_cong [OF assms] ..

text \<open>
  C2 (as amended): the request key is the base URL, the path and the query serialized in
  the key order of the mapping (see the counterexample below). The public accessors build
  the mapping themselves, in the fixed order \<open>before\<close>, \<open>after\<close>, \<open>limit\<close>: for two
  parameter objects with the same key/value pairs in any order, every accessor computes
  the same key and makes the same call, and after a call that stored a truthy value with
  a positive time to live, the call with the other order is answered from the cache
  before the deadline.
\<close>

theorem accessor_key_ignores_parameter_order:
  assumes "distinct (map fst p)" and "distinct (map fst p')" and "set p = set p'"
  shows "request_url c path (Some (queryParams (Some p))) =
           request_url c path (Some (queryParams (Some p')))
         \<and> getPlayerRankings net now later c country (Some p) =
             getPlayerRankings net now later c country (Some p')
         \<and> getClubRankings net now later c country (Some p) =
             getClubRankings net now later c country (Some p')
         \<and> getBrawlerRankings net now later c country brawler (Some p) =
             getBrawlerRankings net now later c country brawler (Some p')
         \<and> getClubMembers net now later c tag (Some p) = getClubMembers net now later c tag (Some p')
         \<and> getBrawlers net now later c (Some p) = getBrawlers net now later c (Some p')
         \<and> (cache c = Some m
              \<and> \<not> truthy (cache_lookup c now
                    (request_url c (''/rankings/'' @ country @ ''/players'') (Some (queryParams (Some p)))))
              \<and> net (make_request c
                    (request_url c (''/rankings/'' @ country @ ''/players'') (Some (queryParams (Some p)))))
                  = Response r
              \<and> ok r \<and> json r = Some v
              \<and> ttl_of (headers_get r ''cache-control'') = Num ttl \<and> 0 < ttl
              \<and> truthy v \<and> now' < later + ttl
            \<longrightarrow> getPlayerRankings net' now' later'
                  (client_after c (getPlayerRankings net now later c country (Some p)))
                  country (Some p') =
                \<lparr>outcome = Inr v,
                 cache_after = cache (client_after c (getPlayerRankings net now later c country (Some p))),
                 effects = []\<rparr>)"
proof -
  note q = queryParams_cong [OF assms]
  have "getPlayerRankings net' now' later'
          (client_after c (getPlayerRankings net now later c country (Some p))) country (Some p') =
        \<lparr>outcome = Inr v,
         cache_after = cache (client_after c (getPlayerRankings net now later c country (Some p))),
         effects = []\<rparr>"
    if "cache c = Some m"
      and "\<not> truthy (cache_lookup c now
             (request_url c (''/rankings/'' @ country @ ''/players'') (Some (queryParams (Some p)))))"
      and "net (make_request c
             (request_url c (''/rankings/'' @ country @ ''/players'') (Some (queryParams (Some p)))))
           = Response r"
      and "ok r" and "json r = Some v"
      and "ttl_of (headers_get r ''cache-control'') = Num ttl" and "0 < ttl"
      and "truthy v" and "now' < later + ttl"
    using second_call_hit [where net = net and net' = net' and later' = later', OF that]
    by (simp add: getPlayerRankings_def q)
  then show ?thesis
    by (auto simp: q getPlayerRankings_def getClubRankings_def getBrawlerRankings_def
        getClubMembers_def getBrawlers_def)
qed

lemma rankings_url:
  "request_url example_client ''/rankings/us/players''
     (Some (queryParams (Some [(''limit'', JNum (Num 10)), (''before'', JStr ''abc'')]))) =
   ''https://api.brawlstars.com/v1/rankings/us/players?before=abc&limit=10''"
  by (simp add: request_url_def example_client_simps queryParams_eq getProp_def stringify_def
      qsEscape_def escapeChar_def noEscape_def show_int_def show_nat.simps)

text \<open>
  The theorem at \<open>{limit: 10, before: "abc"}\<close> and \<open>{before: "abc", limit: 10}\<close>
  on the player rankings of \<open>us\<close>.
\<close>

theorem accessor_key_ignores_parameter_order_witness:
  "getPlayerRankings (respond not_found) 1 1
     (client_after example_client
        (getPlayerRankings (respond (ok_response (Some ''max-age=60'') (JArr [JStr ''first''] []))) 0 0
           example_client ''us'' (Some [(''limit'', JNum (Num 10)), (''before'', JStr ''abc'')])))
     ''us'' (Some [(''before'', JStr ''abc''), (''limit'', JNum (Num 10))]) =
   \<lparr>outcome = Inr (JArr [JStr ''first''] []),
    cache_after =
      Some (cache_set Map.empty 0
              ''https://api.brawlstars.com/v1/rankings/us/players?before=abc&limit=10''
              (JArr [JStr ''first''] []) 60),
    effects = []\<rparr>"
proof -
  let ?p = "[(''limit'', JNum (Num 10)), (''before'', JStr ''abc'')]"
  let ?p' = "[(''before'', JStr ''abc''), (''limit'', JNum (Num 10))]"
  let ?v = "JArr [JStr ''first''] []"
  let ?r = "ok_response (Some ''max-age=60'') ?v"
  let ?u = "request_url example_client (''/rankings/'' @ ''us'' @ ''/players'') (Some (queryParams (Some ?p)))"
  have 1: "distinct (map fst ?p)" and 2: "distinct (map fst ?p')" and 3: "set ?p = set ?p'"
    by auto
  have pre: "cache example_client = Some Map.empty
      \<and> \<not> truthy (cache_lookup example_client 0 ?u)
      \<and> respond ?r (make_request example_client ?u) = Response ?r
      \<and> ok ?r \<and> json ?r = Some ?v
      \<and> ttl_of (headers_get ?r ''cache-control'') = Num 60 \<and> (0::int) < 60
      \<and> truthy ?v \<and> (1::int) < 0 + 60"
    by (simp add: example_client_simps example_client_miss respond_simp ok_response_simps ttl_60)
  from accessor_key_ignores_parameter_order [OF 1 2 3, where c = example_client
      and country = "''us''" and m = Map.empty and now = 0 and later = 0 and net = "respond ?r"
      and r = ?r and v = ?v and ttl = 60 and now' = 1 and later' = 1 and net' = "respond not_found"] pre
  have "getPlayerRankings (respond not_found) 1 1
          (client_after example_client (getPlayerRankings (respond ?r) 0 0 example_client ''us'' (Some ?p)))
          ''us'' (Some ?p') =
        \<lparr>outcome = Inr ?v,
         cache_after = cache (client_after example_client
                                (getPlayerRankings (respond ?r) 0 0 example_client ''us'' (Some ?p))),
         effects = []\<rparr>"
    by blast
  moreover have "cache (client_after example_client
                    (getPlayerRankings (respond ?r) 0 0 example_client ''us'' (Some ?p))) =
      Some (cache_set Map.empty 0
              ''https://api.brawlstars.com/v1/rankings/us/players?before=abc&limit=10'' ?v 60)"
    unfolding getPlayerRankings_def cached_example using rankings_url by simp
  ultimately show ?thesis by simp
qed

text \<open>
  C2 as stated fails for \<open>Client._fetch\<close> itself: the two mappings give two different
  keys, because \<open>stringify\<close> follows the key order of the mapping.
\<close>

theorem key_depends_on_insertion_order:
  "request_url example_client ''/rankings/us/players''
     (Some [(''limit'', JNum (Num 10)), (''before'', JStr ''abc'')]) =
   ''https://api.brawlstars.com/v1/rankings/us/players?limit=10&before=abc''
   \<and> request_url example_client ''/rankings/us/players''
     (Some [(''before'', JStr ''abc''), (''limit'', JNum (Num 10))]) =
   ''https://api.brawlstars.com/v1/rankings/us/players?before=abc&limit=10''"
  by (simp add: request_url_def example_client_simps stringify_def
      qsEscape_def escapeChar_def noEscape_def show_int_def show_nat.simps)

end
